theory Spec2Isabelle
  imports Main
begin

section \<open>Errors and results\<close>

text \<open>
  A JavaScript exception is a value: \<open>Error msg\<close> is \<open>new Error(msg)\<close>, the other
  constructors are the built-in error classes the runtime raises.  A computation that
  may throw returns \<open>error + 'a\<close>, with \<open>Inl\<close> the thrown value.
\<close>

datatype error = Error string | TypeError string | RangeError string

type_synonym 'a result = "error + 'a"

text \<open>\<open>String(error)\<close>, as a template literal \<open>${error}\<close> computes it.\<close>

fun error_toString :: "error \<Rightarrow> string" where
  "error_toString (Error m) = (if m = [] then ''Error'' else ''Error: '' @ m)"
| "error_toString (TypeError m) = (if m = [] then ''TypeError'' else ''TypeError: '' @ m)"
| "error_toString (RangeError m) = (if m = [] then ''RangeError'' else ''RangeError: '' @ m)"

section \<open>core/types.ts\<close>

datatype Chain = ethereum | polygon | bsc | arbitrum | bitcoin

text \<open>\<open>Chain\<close> is a union of string literals: the string each value is at run time.\<close>

fun chain_string :: "Chain \<Rightarrow> string" where
  "chain_string ethereum = ''ethereum''"
| "chain_string polygon = ''polygon''"
| "chain_string bsc = ''bsc''"
| "chain_string arbitrum = ''arbitrum''"
| "chain_string bitcoin = ''bitcoin''"

section \<open>The ethers library, as a parameter\<close>

text \<open>
  The repository calls the ethers library for BIP-39, BIP-32 and account handling.
  The library is not part of the repository; the functions the code calls are the
  fields of a record that every operation below takes as its first argument.  A field
  returns \<open>Inl\<close> where the library call throws.
\<close>

record Mnemonic =
  phrase :: string
  entropy :: string

datatype BytesLike = Uint8Array "nat list" | HexString string

record ethers =
  Mnemonic_fromPhrase :: "string \<Rightarrow> Mnemonic result"
  Mnemonic_fromEntropy :: "BytesLike \<Rightarrow> Mnemonic result"
  HDNodeWallet_fromPhrase :: "string \<Rightarrow> string \<Rightarrow> string \<Rightarrow> string result"
    \<comment> \<open>\<open>HDNodeWallet.fromPhrase(phrase, password, path).privateKey\<close>\<close>
  Wallet_new :: "string \<Rightarrow> string result"
    \<comment> \<open>\<open>new ethers.Wallet(privateKey, provider).address\<close>\<close>
  Wallet_signMessage :: "string \<Rightarrow> string \<Rightarrow> string result"
    \<comment> \<open>\<open>wallet.signMessage(message)\<close>, for the wallet of a private key\<close>
  isAddress :: "string \<Rightarrow> bool"
  formatUnits :: "int \<Rightarrow> int \<Rightarrow> string"
  formatEther :: "int \<Rightarrow> string"
  parseUnits :: "string \<Rightarrow> int \<Rightarrow> int result"
  parseEther :: "string \<Rightarrow> int result"

section \<open>core/mnemonic.ts\<close>

text \<open>\<open>generateMnemonic\<close>; the argument is what \<open>crypto.getRandomValues\<close> wrote
  into the 16-byte array.\<close>

definition generateMnemonic :: "ethers \<Rightarrow> nat list \<Rightarrow> string result" where
  "generateMnemonic E array =
     (case Mnemonic_fromEntropy E (Uint8Array array) of
        Inl e \<Rightarrow> Inl e
      | Inr m \<Rightarrow> Inr (phrase m))"

definition validateMnemonic :: "ethers \<Rightarrow> string \<Rightarrow> bool" where
  "validateMnemonic E mnemonic =
     (case Mnemonic_fromPhrase E mnemonic of
        Inr _ \<Rightarrow> True
      | Inl _ \<Rightarrow> False)"

definition mnemonicToEntropy :: "ethers \<Rightarrow> string \<Rightarrow> string result" where
  "mnemonicToEntropy E mnemonic =
     (case Mnemonic_fromPhrase E mnemonic of
        Inl e \<Rightarrow> Inl e
      | Inr m \<Rightarrow> Inr (entropy m))"

definition entropyToMnemonic :: "ethers \<Rightarrow> string \<Rightarrow> string result" where
  "entropyToMnemonic E ent =
     (case Mnemonic_fromEntropy E (HexString ent) of
        Inl e \<Rightarrow> Inl e
      | Inr m \<Rightarrow> Inr (phrase m))"

section \<open>core/key-manager.ts\<close>

fun DERIVATION_PATHS :: "Chain \<Rightarrow> string" where
  "DERIVATION_PATHS ethereum = ''44'/60'/0'/0/0''"
| "DERIVATION_PATHS polygon = ''44'/60'/0'/0/0''"
| "DERIVATION_PATHS bsc = ''44'/60'/0'/0/0''"
| "DERIVATION_PATHS arbitrum = ''44'/60'/0'/0/0''"
| "DERIVATION_PATHS bitcoin = ''44'/0'/0'/0/0''"

record KeyManager =
  mnemonic :: string
  derivedKeys :: "Chain \<rightharpoonup> string"

text \<open>The constructor stores the phrase; it has no other statement.\<close>

definition KeyManager_new :: "string \<Rightarrow> KeyManager" where
  "KeyManager_new m = \<lparr>mnemonic = m, derivedKeys = Map.empty\<rparr>"

text \<open>
  \<open>derivePrivateKey\<close> returns what the method returns or throws, and the manager
  after the call.  When the library throws, the cache has not been written.
\<close>

definition derivePrivateKey ::
  "ethers \<Rightarrow> Chain \<Rightarrow> KeyManager \<Rightarrow> string result \<times> KeyManager" where
  "derivePrivateKey E chain km =
     (case derivedKeys km chain of
        Some k \<Rightarrow> (Inr k, km)
      | None \<Rightarrow>
          (let path = DERIVATION_PATHS chain in
           case HDNodeWallet_fromPhrase E (mnemonic km) [] (''m/'' @ path) of
             Inl e \<Rightarrow> (Inl e, km)
           | Inr privateKey \<Rightarrow>
               (Inr privateKey, km\<lparr>derivedKeys := (derivedKeys km)(chain \<mapsto> privateKey)\<rparr>)))"

definition getMnemonic :: "KeyManager \<Rightarrow> string" where
  "getMnemonic km = mnemonic km"

text \<open>\<open>exportPrivateKeys\<close>: the loop over \<open>Object.keys(DERIVATION_PATHS)\<close>, in
  the order the keys were written; the first derivation that throws ends it.\<close>

fun exportPrivateKeys_loop ::
  "ethers \<Rightarrow> Chain list \<Rightarrow> (Chain \<rightharpoonup> string) \<Rightarrow> KeyManager
     \<Rightarrow> (Chain \<rightharpoonup> string) result \<times> KeyManager" where
  "exportPrivateKeys_loop E [] res km = (Inr res, km)"
| "exportPrivateKeys_loop E (c # cs) res km =
     (case derivePrivateKey E c km of
        (Inl e, km') \<Rightarrow> (Inl e, km')
      | (Inr k, km') \<Rightarrow> exportPrivateKeys_loop E cs (res(c \<mapsto> k)) km')"

definition exportPrivateKeys ::
  "ethers \<Rightarrow> KeyManager \<Rightarrow> (Chain \<rightharpoonup> string) result \<times> KeyManager" where
  "exportPrivateKeys E km =
     exportPrivateKeys_loop E [ethereum, polygon, bsc, arbitrum, bitcoin] Map.empty km"

definition clear :: "KeyManager \<Rightarrow> KeyManager" where
  "clear km = km\<lparr>derivedKeys := Map.empty\<rparr>"

subsection \<open>The life of one manager\<close>

text \<open>
  The methods a caller can invoke on a manager, and the manager after a sequence of
  such calls (a call that throws leaves the manager as the method left it).
\<close>

datatype KeyManagerCall = CallDerive Chain | CallExport | CallClear | CallGetMnemonic

fun after_call :: "ethers \<Rightarrow> KeyManager \<Rightarrow> KeyManagerCall \<Rightarrow> KeyManager" where
  "after_call E km (CallDerive c) = snd (derivePrivateKey E c km)"
| "after_call E km CallExport = snd (exportPrivateKeys E km)"
| "after_call E km CallClear = clear km"
| "after_call E km CallGetMnemonic = km"

definition after_calls :: "ethers \<Rightarrow> KeyManager \<Rightarrow> KeyManagerCall list \<Rightarrow> KeyManager" where
  "after_calls E km cs = foldl (after_call E) km cs"

text \<open>Every cached key is the key the library derives for the manager's phrase.\<close>

definition cache_sound :: "ethers \<Rightarrow> KeyManager \<Rightarrow> bool" where
  "cache_sound E km =
     (\<forall>c k. derivedKeys km c = Some k \<longrightarrow>
        HDNodeWallet_fromPhrase E (mnemonic km) [] (''m/'' @ DERIVATION_PATHS c) = Inr k)"

section \<open>The JavaScript runtime\<close>

text \<open>
  Strings are lists of bytes: an ASCII string is its characters, and
  \<open>Buffer.from(s)\<close> is the UTF-8 bytes of a well-formed string, the list itself.
\<close>

text \<open>\<open>s.slice(start, end)\<close> for indices that are not negative.\<close>

definition slice :: "string \<Rightarrow> nat \<Rightarrow> nat \<Rightarrow> string" where
  "slice s start end = take (end - start) (drop start s)"

text \<open>\<open>a || b\<close> on an optional string: \<open>undefined\<close> and the empty string are falsy.\<close>

definition or_else :: "string option \<Rightarrow> string \<Rightarrow> string" where
  "or_else a b = (case a of None \<Rightarrow> b | Some s \<Rightarrow> if s = [] then b else s)"

definition toUpperCase_char :: "char \<Rightarrow> char" where
  "toUpperCase_char c =
     (case map_of (zip ''abcdefghijklmnopqrstuvwxyz'' ''ABCDEFGHIJKLMNOPQRSTUVWXYZ'') c of
        Some u \<Rightarrow> u
      | None \<Rightarrow> c)"

text \<open>\<open>n.toString()\<close> for a number that is a natural number.\<close>

fun Number_toString :: "nat \<Rightarrow> string" where
  "Number_toString n =
     (if n < 10 then [''0123456789'' ! n]
      else Number_toString (n div 10) @ [''0123456789'' ! (n mod 10)])"

declare Number_toString.simps [simp del]

subsection \<open>\<open>Buffer\<close> and base64\<close>

definition Buffer_from :: "string \<Rightarrow> nat list" where
  "Buffer_from s = map of_char s"

definition base64_chars :: string where
  "base64_chars = ''ABCDEFGHIJKLMNOPQRSTUVWXYZabcdefghijklmnopqrstuvwxyz0123456789+/''"

definition base64_char :: "nat \<Rightarrow> char" where
  "base64_char n = base64_chars ! n"

text \<open>\<open>buffer.toString('base64')\<close>: three bytes become four characters, and the
  last group is padded with \<open>=\<close>.\<close>

fun toString_base64 :: "nat list \<Rightarrow> string" where
  "toString_base64 (a # b # c # rest) =
     [base64_char (a div 4), base64_char ((a mod 4) * 16 + b div 16),
      base64_char ((b mod 16) * 4 + c div 64), base64_char (c mod 64)] @ toString_base64 rest"
| "toString_base64 [a, b] =
     [base64_char (a div 4), base64_char ((a mod 4) * 16 + b div 16),
      base64_char ((b mod 16) * 4), CHR ''='']"
| "toString_base64 [a] =
     [base64_char (a div 4), base64_char ((a mod 4) * 16), CHR ''='', CHR ''='']"
| "toString_base64 [] = []"

text \<open>
  The inverse a reader of a signature applies, \<open>Buffer.from(sig, 'base64').toString()\<close>.
  It is not code of the repository; the disclosure property is stated with it.
\<close>

fun base64_index :: "char \<Rightarrow> string \<Rightarrow> nat" where
  "base64_index c [] = 0"
| "base64_index c (x # xs) = (if x = c then 0 else Suc (base64_index c xs))"

fun base64_decode :: "string \<Rightarrow> nat list" where
  "base64_decode (w # x # y # z # rest) =
     (let a = base64_index w base64_chars; b = base64_index x base64_chars;
          c = base64_index y base64_chars; d = base64_index z base64_chars
      in if y = CHR ''='' then [a * 4 + b div 16]
         else if z = CHR ''='' then [a * 4 + b div 16, (b mod 16) * 16 + c div 4]
         else [a * 4 + b div 16, (b mod 16) * 16 + c div 4, (c mod 4) * 64 + d]
              @ base64_decode rest)"
| "base64_decode _ = []"

definition Buffer_toString :: "nat list \<Rightarrow> string" where
  "Buffer_toString bs = map char_of bs"

section \<open>The network, as a parameter\<close>

text \<open>
  What the backends answer.  Each field is one awaited call of the code, keyed by the
  endpoint's URL first; \<open>Inl\<close> is a rejected promise.

  For the block explorer, a field is the \<open>fetch\<close> of a URL with the \<open>json()\<close> of the
  response read at the type the code asserts, with integer numbers.  \<open>Inl\<close> there is
  anything thrown before the arithmetic of the \<open>try\<close> block is done: a rejected
  \<open>fetch\<close>, a body that is not JSON, a missing \<open>chain_stats\<close>, a number \<open>BigInt\<close>
  refuses (a fee rate that is not an integer: \<open>BigInt(satPerByte)\<close> throws on it).
  The code computes on these numbers as IEEE doubles before \<open>BigInt\<close>; the integers
  of the model are those results where the doubles are exact, that is for sums and
  products of magnitude below \<open>2^53\<close> (all satoshi amounts are), and the model says
  nothing faithful beyond that range.  Only the paths on which the request fails are
  used in the properties.
\<close>

record network =
  rpc_getNetwork :: "string \<Rightarrow> unit result"
    \<comment> \<open>\<open>provider.getNetwork()\<close>\<close>
  rpc_getBalance :: "string \<Rightarrow> string \<Rightarrow> int result"
    \<comment> \<open>\<open>provider.getBalance(address)\<close>\<close>
  rpc_erc20 :: "string \<Rightarrow> string \<Rightarrow> string \<Rightarrow> (int \<times> int \<times> string) result"
    \<comment> \<open>the \<open>Promise.all\<close> of \<open>balanceOf(address)\<close>, \<open>decimals()\<close>, \<open>symbol()\<close> on
        the contract at a token address\<close>
  rpc_estimateGas :: "string \<Rightarrow> string \<Rightarrow> string \<Rightarrow> int \<Rightarrow> int result"
    \<comment> \<open>\<open>contract.transfer.estimateGas(to, amount)\<close> on the contract at \<open>to\<close>, for
        the wallet of a private key\<close>
  rpc_getFeeData :: "string \<Rightarrow> int option result"
    \<comment> \<open>\<open>provider.getFeeData()\<close>, its \<open>gasPrice\<close> (which may be \<open>null\<close>)\<close>
  rpc_sendTransaction :: "string \<Rightarrow> string \<Rightarrow> string \<Rightarrow> int \<Rightarrow> string result"
    \<comment> \<open>\<open>wallet.sendTransaction({to, value})\<close>, its \<open>hash\<close>, for the wallet of a
        private key\<close>
  fetch_address :: "string \<Rightarrow> (int \<times> int) result"
    \<comment> \<open>\<open>chain_stats.funded_txo_sum\<close> and \<open>chain_stats.spent_txo_sum\<close>\<close>
  fetch_fee_estimates :: "string \<Rightarrow> (nat \<rightharpoonup> int) result"

section \<open>core/types.ts: values\<close>

record Balance =
  amount :: int
  formatted :: string
  symbol :: string
  decimals :: int

record FeeEstimate =
  gasFee :: int
  gasPrice :: int
  gasLimit :: int
  fee_formatted :: string

record PaymentParams =
  p_chain :: Chain
  p_from :: string
  p_to :: string
  p_amount :: string
  p_token :: string
  p_gasPrice :: "string option"
  p_gasLimit :: "string option"

section \<open>chains/base.ts: \<open>BaseChain\<close>\<close>

record BaseChain =
  chainId :: string
  name :: string
  rpcUrl :: string
  explorerUrl :: string

section \<open>chains/evm/ethereum.ts\<close>

fun DEFAULT_RPCS :: "Chain \<Rightarrow> string option" where
  "DEFAULT_RPCS ethereum = Some ''https://eth.llamarpc.com''"
| "DEFAULT_RPCS polygon = Some ''https://polygon-rpc.com''"
| "DEFAULT_RPCS bsc = Some ''https://bsc-dataseed.binance.org''"
| "DEFAULT_RPCS arbitrum = Some ''https://arbitrum-one.publicnode.com''"
| "DEFAULT_RPCS bitcoin = None"

fun CHAIN_IDS :: "Chain \<Rightarrow> nat option" where
  "CHAIN_IDS ethereum = Some 1"
| "CHAIN_IDS polygon = Some 137"
| "CHAIN_IDS bsc = Some 56"
| "CHAIN_IDS arbitrum = Some 42161"
| "CHAIN_IDS bitcoin = None"

fun EXPLORER_URLS :: "Chain \<Rightarrow> string option" where
  "EXPLORER_URLS ethereum = Some ''https://etherscan.io''"
| "EXPLORER_URLS polygon = Some ''https://polygonscan.com''"
| "EXPLORER_URLS bsc = Some ''https://bscscan.com''"
| "EXPLORER_URLS arbitrum = Some ''https://arbiscan.io''"
| "EXPLORER_URLS bitcoin = None"

text \<open>The \<open>provider\<close> of an adapter is determined by its \<open>rpcUrl\<close>; the \<open>wallet\<close> is
  kept as its address.\<close>

record EthereumChain = BaseChain +
  eth_privateKey :: string
  wallet :: string

text \<open>
  The constructor.  Its \<open>chain\<close> parameter has the type of the four EVM names; for
  another name the read of \<open>CHAIN_IDS[chain].toString()\<close> throws.
\<close>

definition EthereumChain_new ::
  "ethers \<Rightarrow> Chain \<Rightarrow> string \<Rightarrow> string option \<Rightarrow> EthereumChain result" where
  "EthereumChain_new E chain privateKey rpc =
     (case (CHAIN_IDS chain, DEFAULT_RPCS chain, EXPLORER_URLS chain) of
        (Some cid, Some default_rpc, Some explorer) \<Rightarrow>
          (case Wallet_new E privateKey of
             Inl e \<Rightarrow> Inl e
           | Inr addr \<Rightarrow>
               Inr \<lparr>chainId = Number_toString cid,
                    name = (case chain_string chain of
                              [] \<Rightarrow> []
                            | c # cs \<Rightarrow> toUpperCase_char c # cs),
                    rpcUrl = or_else rpc default_rpc,
                    explorerUrl = explorer,
                    eth_privateKey = privateKey,
                    wallet = addr\<rparr>)
      | _ \<Rightarrow> Inl (TypeError ''Cannot read properties of undefined (reading 'toString')''))"

definition EthereumChain_connect :: "network \<Rightarrow> EthereumChain \<Rightarrow> unit result" where
  "EthereumChain_connect N a =
     (case rpc_getNetwork N (rpcUrl a) of
        Inr _ \<Rightarrow> Inr ()
      | Inl err \<Rightarrow>
          Inl (Error (''Failed to connect to '' @ name a @ '': '' @ error_toString err)))"

definition EthereumChain_getAddress :: "EthereumChain \<Rightarrow> string" where
  "EthereumChain_getAddress a = wallet a"

definition EthereumChain_getBalance ::
  "ethers \<Rightarrow> network \<Rightarrow> EthereumChain \<Rightarrow> string option \<Rightarrow> Balance result" where
  "EthereumChain_getBalance E N a tokenAddress =
     (case (case tokenAddress of None \<Rightarrow> None | Some t \<Rightarrow> if t = [] then None else Some t) of
        None \<Rightarrow>
          (case rpc_getBalance N (rpcUrl a) (wallet a) of
             Inl e \<Rightarrow> Inl e
           | Inr amt \<Rightarrow>
               Inr \<lparr>amount = amt,
                    formatted = formatUnits E amt 18,
                    symbol = (if name a = ''Polygon'' then ''MATIC''
                              else if name a = ''Bsc'' then ''BNB'' else ''ETH''),
                    decimals = 18\<rparr>)
      | Some t \<Rightarrow>
          (case rpc_erc20 N (rpcUrl a) t (wallet a) of
             Inl e \<Rightarrow> Inl e
           | Inr (balanceAmount, tokenDecimals, tokenSymbol) \<Rightarrow>
               Inr \<lparr>amount = balanceAmount,
                    formatted = formatUnits E balanceAmount tokenDecimals,
                    symbol = tokenSymbol,
                    decimals = tokenDecimals\<rparr>))"

definition native_token :: "string \<Rightarrow> bool" where
  "native_token t = (t = ''ETH'' \<or> t = ''MATIC'' \<or> t = ''BNB'')"

definition EthereumChain_estimateFee ::
  "ethers \<Rightarrow> network \<Rightarrow> EthereumChain \<Rightarrow> PaymentParams \<Rightarrow> FeeEstimate result" where
  "EthereumChain_estimateFee E N a params =
     (case (if native_token (p_token params) then Inr 21000
            else (case parseUnits E (p_amount params) 18 of
                    Inl e \<Rightarrow> Inl e
                  | Inr parsedAmount \<Rightarrow>
                      rpc_estimateGas N (rpcUrl a) (eth_privateKey a) (p_to params) parsedAmount)) of
        Inl e \<Rightarrow> Inl e
      | Inr limit \<Rightarrow>
          (case rpc_getFeeData N (rpcUrl a) of
             Inl e \<Rightarrow> Inl e
           | Inr feeData \<Rightarrow>
               (let price = (case feeData of None \<Rightarrow> 0 | Some g \<Rightarrow> g);
                    fee = limit * price
                in Inr \<lparr>gasFee = fee, gasPrice = price, gasLimit = limit,
                        fee_formatted = formatEther E fee\<rparr>)))"

definition EthereumChain_sendTransaction ::
  "ethers \<Rightarrow> network \<Rightarrow> EthereumChain \<Rightarrow> PaymentParams \<Rightarrow> string result" where
  "EthereumChain_sendTransaction E N a params =
     (if native_token (p_token params)
      then (case parseEther E (p_amount params) of
              Inl e \<Rightarrow> Inl e
            | Inr v \<Rightarrow> rpc_sendTransaction N (rpcUrl a) (eth_privateKey a) (p_to params) v)
      else Inl (Error ''ERC-20 transfers require token address configuration''))"

definition EthereumChain_signMessage :: "ethers \<Rightarrow> EthereumChain \<Rightarrow> string \<Rightarrow> string result" where
  "EthereumChain_signMessage E a message = Wallet_signMessage E (eth_privateKey a) message"

section \<open>chains/bitcoin/bitcoin.ts\<close>

record BitcoinChain = BaseChain +
  btc_privateKey :: string
  address :: string

definition deriveAddress :: "string \<Rightarrow> string" where
  "deriveAddress privateKey = ''bc1q'' @ slice privateKey 2 40"

definition BitcoinChain_new :: "string \<Rightarrow> string option \<Rightarrow> BitcoinChain" where
  "BitcoinChain_new privateKey rpc =
     \<lparr>chainId = ''bitcoin'',
      name = ''Bitcoin'',
      rpcUrl = or_else rpc ''https://blockstream.info/api'',
      explorerUrl = ''https://blockstream.info'',
      btc_privateKey = privateKey,
      address = deriveAddress privateKey\<rparr>"

definition BitcoinChain_connect :: "BitcoinChain \<Rightarrow> unit result" where
  "BitcoinChain_connect b = Inr ()"

definition BitcoinChain_getAddress :: "BitcoinChain \<Rightarrow> string" where
  "BitcoinChain_getAddress b = address b"

text \<open>
  \<open>getBalance\<close> and \<open>estimateFee\<close> take \<open>toFixed8\<close>, the runtime's
  \<open>(n / 100_000_000).toFixed(8)\<close> on an integer \<open>n\<close>, as a parameter: it is floating-point
  formatting and no property below depends on it.
\<close>

definition BitcoinChain_getBalance ::
  "network \<Rightarrow> (int \<Rightarrow> string) \<Rightarrow> BitcoinChain \<Rightarrow> Balance result" where
  "BitcoinChain_getBalance N toFixed8 b =
     (case fetch_address N (rpcUrl b @ ''/address/'' @ address b) of
        Inr (funded_txo_sum, spent_txo_sum) \<Rightarrow>
          (let satoshis = funded_txo_sum - spent_txo_sum
           in Inr \<lparr>amount = satoshis, formatted = toFixed8 satoshis,
                   symbol = ''BTC'', decimals = 8\<rparr>)
      | Inl err \<Rightarrow>
          Inr \<lparr>amount = 0, formatted = ''0'', symbol = ''BTC'', decimals = 8\<rparr>)"

definition BitcoinChain_estimateFee ::
  "network \<Rightarrow> (int \<Rightarrow> string) \<Rightarrow> BitcoinChain \<Rightarrow> PaymentParams \<Rightarrow> FeeEstimate result" where
  "BitcoinChain_estimateFee N toFixed8 b params =
     (case fetch_fee_estimates N (rpcUrl b @ ''/fee-estimates'') of
        Inr feeData \<Rightarrow>
          (let satPerByte = (case feeData 6 of
                               None \<Rightarrow> 10
                             | Some v \<Rightarrow> if v = 0 then 10 else v);
               estimatedSize = 250;
               satoshis = satPerByte * estimatedSize
           in Inr \<lparr>gasFee = satoshis, gasPrice = satPerByte, gasLimit = estimatedSize,
                   fee_formatted = toFixed8 (satPerByte * estimatedSize)\<rparr>)
      | Inl err \<Rightarrow>
          (let satPerByte = 10;
               estimatedSize = 250;
               satoshis = satPerByte * estimatedSize
           in Inr \<lparr>gasFee = satoshis, gasPrice = satPerByte, gasLimit = estimatedSize,
                   fee_formatted = ''0.00002500''\<rparr>))"

definition BitcoinChain_sendTransaction :: "BitcoinChain \<Rightarrow> PaymentParams \<Rightarrow> string result" where
  "BitcoinChain_sendTransaction b params =
     Inl (Error
       ''Bitcoin transactions require bitcoinjs-lib. Install with: npm install bitcoinjs-lib'')"

definition BitcoinChain_signMessage :: "BitcoinChain \<Rightarrow> string \<Rightarrow> string result" where
  "BitcoinChain_signMessage b message =
     (let signature = toString_base64 (Buffer_from (btc_privateKey b @ message))
      in Inr signature)"

section \<open>The capability set\<close>

text \<open>An instance of \<open>BaseChain\<close> is an instance of one of its two subclasses; a method
  call on it runs the subclass's method.\<close>

datatype ChainInstance = Evm EthereumChain | Btc BitcoinChain

fun connect :: "network \<Rightarrow> ChainInstance \<Rightarrow> unit result" where
  "connect N (Evm a) = EthereumChain_connect N a"
| "connect N (Btc b) = BitcoinChain_connect b"

fun getAddress :: "ChainInstance \<Rightarrow> string" where
  "getAddress (Evm a) = EthereumChain_getAddress a"
| "getAddress (Btc b) = BitcoinChain_getAddress b"

fun getBalance ::
  "ethers \<Rightarrow> network \<Rightarrow> (int \<Rightarrow> string) \<Rightarrow> ChainInstance \<Rightarrow> string option \<Rightarrow> Balance result" where
  "getBalance E N toFixed8 (Evm a) tokenAddress = EthereumChain_getBalance E N a tokenAddress"
| "getBalance E N toFixed8 (Btc b) tokenAddress = BitcoinChain_getBalance N toFixed8 b"

fun estimateFee ::
  "ethers \<Rightarrow> network \<Rightarrow> (int \<Rightarrow> string) \<Rightarrow> ChainInstance \<Rightarrow> PaymentParams \<Rightarrow> FeeEstimate result" where
  "estimateFee E N toFixed8 (Evm a) params = EthereumChain_estimateFee E N a params"
| "estimateFee E N toFixed8 (Btc b) params = BitcoinChain_estimateFee N toFixed8 b params"

fun sendTransaction ::
  "ethers \<Rightarrow> network \<Rightarrow> ChainInstance \<Rightarrow> PaymentParams \<Rightarrow> string result" where
  "sendTransaction E N (Evm a) params = EthereumChain_sendTransaction E N a params"
| "sendTransaction E N (Btc b) params = BitcoinChain_sendTransaction b params"

fun signMessage :: "ethers \<Rightarrow> ChainInstance \<Rightarrow> string \<Rightarrow> string result" where
  "signMessage E (Evm a) message = EthereumChain_signMessage E a message"
| "signMessage E (Btc b) message = BitcoinChain_signMessage b message"

section \<open>chains/base.ts: the registry\<close>

type_synonym ChainFactory = "string \<Rightarrow> string option \<Rightarrow> ChainInstance result"

text \<open>
  \<open>ChainRegistry\<close> is the object literal \<open>{}\<close>: an ordinary object, whose own
  properties are the registered factories and whose prototype is \<open>Object.prototype\<close>.
  The registry is the map of its own properties.
\<close>

type_synonym registry = "string \<rightharpoonup> ChainFactory"

definition ChainRegistry :: registry where
  "ChainRegistry = Map.empty"

text \<open>\<open>registerChain\<close>, on a name of the type \<open>Chain\<close>.\<close>

definition registerChain :: "Chain \<Rightarrow> ChainFactory \<Rightarrow> registry \<Rightarrow> registry" where
  "registerChain chain factory reg = reg(chain_string chain \<mapsto> factory)"

text \<open>
  The read \<open>ChainRegistry[chain]\<close> finds an own property first and a property of
  \<open>Object.prototype\<close> after it; only a name that is neither reads \<open>undefined\<close>.
\<close>

definition Object_prototype :: "string list" where
  "Object_prototype =
     [''constructor'', ''__defineGetter__'', ''__defineSetter__'', ''hasOwnProperty'',
      ''__lookupGetter__'', ''__lookupSetter__'', ''isPrototypeOf'', ''propertyIsEnumerable'',
      ''toString'', ''valueOf'', ''__proto__'', ''toLocaleString'']"

datatype property = Own ChainFactory | Inherited string | Undefined

definition registry_get :: "registry \<Rightarrow> string \<Rightarrow> property" where
  "registry_get reg chain =
     (case reg chain of
        Some factory \<Rightarrow> Own factory
      | None \<Rightarrow> if chain \<in> set Object_prototype then Inherited chain else Undefined)"

text \<open>
  What \<open>getChain\<close> returns is typed \<open>BaseChain\<close>; at run time it is what the call of
  the value read from the registry returned.
\<close>

datatype jsvalue =
    Instance ChainInstance
  | StringObject string
  | PrimitiveString string
  | PrimitiveBoolean bool

text \<open>
  The call \<open>factory(privateKey, rpcUrl)\<close> of an inherited property, in a module (strict
  code, \<open>this\<close> is \<open>undefined\<close>): \<open>Object(privateKey)\<close> wraps the string,
  \<open>toString\<close> names the missing receiver, \<open>isPrototypeOf\<close> answers \<open>false\<close> for an
  argument that is not an object, \<open>__proto__\<close> reads the prototype object, which is not
  callable, and the others convert the receiver to an object, which throws.
\<close>

definition call_inherited :: "string \<Rightarrow> string \<Rightarrow> jsvalue result" where
  "call_inherited prop privateKey =
     (if prop = ''constructor'' then Inr (StringObject privateKey)
      else if prop = ''toString'' then Inr (PrimitiveString ''[object Undefined]'')
      else if prop = ''isPrototypeOf'' then Inr (PrimitiveBoolean False)
      else if prop = ''__proto__'' then Inl (TypeError ''factory is not a function'')
      else if prop = ''toLocaleString''
        then Inl (TypeError ''Object.prototype.toLocaleString called on null or undefined'')
      else Inl (TypeError ''Cannot convert undefined or null to object''))"

text \<open>
  \<open>getChain\<close>.  Its \<open>chain\<close> parameter is typed \<open>Chain\<close>; the type is erased at
  run time, and the function receives any string.  It returns the result together with
  the registry after the call.
\<close>

definition getChain ::
  "registry \<Rightarrow> string \<Rightarrow> string \<Rightarrow> string option \<Rightarrow> jsvalue result \<times> registry" where
  "getChain reg chain privateKey rpc =
     (case registry_get reg chain of
        Undefined \<Rightarrow> (Inl (Error (''Chain '' @ chain @ '' not implemented'')), reg)
      | Own factory \<Rightarrow>
          (case factory privateKey rpc of
             Inl e \<Rightarrow> (Inl e, reg)
           | Inr inst \<Rightarrow> (Inr (Instance inst), reg))
      | Inherited prop \<Rightarrow> (call_inherited prop privateKey, reg))"

text \<open>A method call on the value \<open>getChain\<close> returned: a value that is not an adapter
  has no such method.\<close>

definition method_of :: "string \<Rightarrow> jsvalue \<Rightarrow> ChainInstance result" where
  "method_of m v =
     (case v of
        Instance c \<Rightarrow> Inr c
      | _ \<Rightarrow> Inl (TypeError (''chainInstance.'' @ m @ '' is not a function'')))"

section \<open>core/wallet.ts\<close>

definition ethereumFactory :: "ethers \<Rightarrow> Chain \<Rightarrow> ChainFactory" where
  "ethereumFactory E chain =
     (\<lambda>privateKey rpc.
        case EthereumChain_new E chain privateKey rpc of
          Inl e \<Rightarrow> Inl e
        | Inr a \<Rightarrow> Inr (Evm a))"

text \<open>The registry after the module has been loaded: its five \<open>registerChain\<close>
  statements, in their order.\<close>

definition loaded_registry :: "ethers \<Rightarrow> registry" where
  "loaded_registry E =
     registerChain bitcoin (\<lambda>privateKey rpc. Inr (Btc (BitcoinChain_new privateKey None)))
       (registerChain arbitrum (ethereumFactory E arbitrum)
         (registerChain bsc (ethereumFactory E bsc)
           (registerChain polygon (ethereumFactory E polygon)
             (registerChain ethereum (ethereumFactory E ethereum) ChainRegistry))))"

record WalletConfig =
  config_mnemonic :: "string option"
  password :: "string option"
  rpcUrls :: "Chain \<rightharpoonup> string"

record ClawCashWallet =
  keyManager :: KeyManager
  config :: WalletConfig

text \<open>
  The constructor; \<open>array\<close> is the random bytes \<open>generateMnemonic\<close> draws if it is
  called.  \<open>config.mnemonic || generateMnemonic()\<close> generates a phrase for a missing
  and for an empty one.
\<close>

definition ClawCashWallet_new ::
  "ethers \<Rightarrow> nat list \<Rightarrow> WalletConfig \<Rightarrow> ClawCashWallet result" where
  "ClawCashWallet_new E array cfg =
     (case (case config_mnemonic cfg of
              None \<Rightarrow> generateMnemonic E array
            | Some m \<Rightarrow> if m = [] then generateMnemonic E array else Inr m) of
        Inl e \<Rightarrow> Inl e
      | Inr m \<Rightarrow>
          if \<not> validateMnemonic E m then Inl (Error ''Invalid mnemonic phrase'')
          else Inr \<lparr>keyManager = KeyManager_new m,
                    config = cfg\<lparr>config_mnemonic := Some m\<rparr>\<rparr>)"

definition empty_config :: WalletConfig where
  "empty_config = \<lparr>config_mnemonic = None, password = None, rpcUrls = Map.empty\<rparr>"

definition createWallet :: "ethers \<Rightarrow> nat list \<Rightarrow> string option \<Rightarrow> ClawCashWallet result" where
  "createWallet E array m = ClawCashWallet_new E array (empty_config\<lparr>config_mnemonic := m\<rparr>)"

definition importWallet :: "ethers \<Rightarrow> nat list \<Rightarrow> string \<Rightarrow> ClawCashWallet result" where
  "importWallet E array m =
     (if \<not> validateMnemonic E m then Inl (Error ''Invalid mnemonic phrase'')
      else ClawCashWallet_new E array (empty_config\<lparr>config_mnemonic := Some m\<rparr>))"

text \<open>
  The expression \<open>getChain(chain, this.keyManager.derivePrivateKey(chain))\<close> that opens
  every chain operation: the key is derived first, and the wallet keeps the manager as
  the derivation left it.
\<close>

definition getChain_derived ::
  "registry \<Rightarrow> ethers \<Rightarrow> Chain \<Rightarrow> ClawCashWallet \<Rightarrow> jsvalue result \<times> ClawCashWallet" where
  "getChain_derived reg E chain w =
     (case derivePrivateKey E chain (keyManager w) of
        (Inl e, km) \<Rightarrow> (Inl e, w\<lparr>keyManager := km\<rparr>)
      | (Inr pk, km) \<Rightarrow> (fst (getChain reg (chain_string chain) pk None), w\<lparr>keyManager := km\<rparr>))"

text \<open>The loop of \<open>getAddresses\<close> over the four EVM names.  The \<open>try\<close> around
  \<open>connect()\<close> catches what the call throws, also when the value has no such method.\<close>

fun getAddresses_loop ::
  "registry \<Rightarrow> ethers \<Rightarrow> network \<Rightarrow> Chain list \<Rightarrow> (Chain \<rightharpoonup> string) \<Rightarrow> ClawCashWallet
     \<Rightarrow> (Chain \<rightharpoonup> string) result \<times> ClawCashWallet" where
  "getAddresses_loop reg E N [] addresses w = (Inr addresses, w)"
| "getAddresses_loop reg E N (chain # rest) addresses w =
     (case getChain_derived reg E chain w of
        (Inl e, w') \<Rightarrow> (Inl e, w')
      | (Inr chainInstance, w') \<Rightarrow>
          (let connected = (case method_of ''connect'' chainInstance of
                              Inl e \<Rightarrow> Inl e
                            | Inr c \<Rightarrow> connect N c)
           in case method_of ''getAddress'' chainInstance of
                Inl e \<Rightarrow> (Inl e, w')
              | Inr c \<Rightarrow>
                  getAddresses_loop reg E N rest (addresses(chain \<mapsto> getAddress c)) w'))"

definition getBitcoinAddress :: "ethers \<Rightarrow> ClawCashWallet \<Rightarrow> string result \<times> ClawCashWallet" where
  "getBitcoinAddress E w =
     (case derivePrivateKey E bitcoin (keyManager w) of
        (Inl e, km) \<Rightarrow> (Inl e, w\<lparr>keyManager := km\<rparr>)
      | (Inr pk, km) \<Rightarrow> (Inr (''bc1q'' @ slice pk 0 38), w\<lparr>keyManager := km\<rparr>))"

definition getAddresses ::
  "registry \<Rightarrow> ethers \<Rightarrow> network \<Rightarrow> ClawCashWallet
     \<Rightarrow> (Chain \<rightharpoonup> string) result \<times> ClawCashWallet" where
  "getAddresses reg E N w =
     (case getAddresses_loop reg E N [ethereum, polygon, bsc, arbitrum] Map.empty w of
        (Inl e, w') \<Rightarrow> (Inl e, w')
      | (Inr addresses, w') \<Rightarrow>
          (case getBitcoinAddress E w' of
             (Inl e, w'') \<Rightarrow> (Inl e, w'')
           | (Inr a, w'') \<Rightarrow> (Inr (addresses(bitcoin \<mapsto> a)), w'')))"

text \<open>The four operations that require the connection: \<open>await chainInstance.connect()\<close>
  is outside any \<open>try\<close>.\<close>

definition connected_instance ::
  "registry \<Rightarrow> ethers \<Rightarrow> network \<Rightarrow> Chain \<Rightarrow> ClawCashWallet
     \<Rightarrow> ChainInstance result \<times> ClawCashWallet" where
  "connected_instance reg E N chain w =
     (case getChain_derived reg E chain w of
        (Inl e, w') \<Rightarrow> (Inl e, w')
      | (Inr chainInstance, w') \<Rightarrow>
          (case method_of ''connect'' chainInstance of
             Inl e \<Rightarrow> (Inl e, w')
           | Inr c \<Rightarrow>
               (case connect N c of
                  Inl e \<Rightarrow> (Inl e, w')
                | Inr _ \<Rightarrow> (Inr c, w'))))"

definition ClawCashWallet_getBalance ::
  "registry \<Rightarrow> ethers \<Rightarrow> network \<Rightarrow> (int \<Rightarrow> string) \<Rightarrow> Chain \<Rightarrow> ClawCashWallet
     \<Rightarrow> Balance result \<times> ClawCashWallet" where
  "ClawCashWallet_getBalance reg E N toFixed8 chain w =
     (case connected_instance reg E N chain w of
        (Inl e, w') \<Rightarrow> (Inl e, w')
      | (Inr c, w') \<Rightarrow> (getBalance E N toFixed8 c None, w'))"

definition ClawCashWallet_estimateFee ::
  "registry \<Rightarrow> ethers \<Rightarrow> network \<Rightarrow> (int \<Rightarrow> string) \<Rightarrow> PaymentParams \<Rightarrow> ClawCashWallet
     \<Rightarrow> FeeEstimate result \<times> ClawCashWallet" where
  "ClawCashWallet_estimateFee reg E N toFixed8 params w =
     (case connected_instance reg E N (p_chain params) w of
        (Inl e, w') \<Rightarrow> (Inl e, w')
      | (Inr c, w') \<Rightarrow> (estimateFee E N toFixed8 c params, w'))"

definition sendPayment ::
  "registry \<Rightarrow> ethers \<Rightarrow> network \<Rightarrow> PaymentParams \<Rightarrow> ClawCashWallet
     \<Rightarrow> string result \<times> ClawCashWallet" where
  "sendPayment reg E N params w =
     (case connected_instance reg E N (p_chain params) w of
        (Inl e, w') \<Rightarrow> (Inl e, w')
      | (Inr c, w') \<Rightarrow> (sendTransaction E N c params, w'))"

definition ClawCashWallet_signMessage ::
  "registry \<Rightarrow> ethers \<Rightarrow> network \<Rightarrow> string \<Rightarrow> Chain \<Rightarrow> ClawCashWallet
     \<Rightarrow> string result \<times> ClawCashWallet" where
  "ClawCashWallet_signMessage reg E N message chain w =
     (case connected_instance reg E N chain w of
        (Inl e, w') \<Rightarrow> (Inl e, w')
      | (Inr c, w') \<Rightarrow> (signMessage E c message, w'))"

definition exportMnemonic :: "ClawCashWallet \<Rightarrow> string" where
  "exportMnemonic w = getMnemonic (keyManager w)"

section \<open>Predicates used to state the properties\<close>

text \<open>The characters that follow \<open>0x\<close> in a private key as the library prints it.\<close>

definition hex_digit :: "char \<Rightarrow> bool" where
  "hex_digit c = (c \<in> set ''0123456789abcdefABCDEF'')"

section \<open>The seed encoding of the library, from the specification\<close>

text \<open>
  Modelled from the spec: \<open>Mnemonic.fromEntropy\<close> and \<open>Mnemonic.fromPhrase\<close> of the ethers
  library, which \<open>core/mnemonic.ts\<close> calls and which are not in the repository.  The
  specification describes the seed as entropy (128 to 256 bits) with a derived
  checksummed word sequence that is a reversible function of the entropy, validated by
  recomputing the checksum and by word-list membership, and names BIP-39.  The model is
  that encoding: the bits of the entropy, followed by the first bits of its hash (one
  for every 32 bits of entropy), are cut into groups of 11 bits, each group is the
  index of a word, and the words are joined by single spaces.  The hash function \<open>H\<close>
  and the word list \<open>wl\<close> are parameters.
\<close>

fun index_of :: "'a \<Rightarrow> 'a list \<Rightarrow> nat" where
  "index_of x [] = 0"
| "index_of x (y # ys) = (if y = x then 0 else Suc (index_of x ys))"

text \<open>The \<open>n\<close> low bits of a number, most significant first, and back.\<close>

primrec bits_of :: "nat \<Rightarrow> nat \<Rightarrow> bool list" where
  "bits_of 0 v = []"
| "bits_of (Suc n) v = bits_of n (v div 2) @ [odd v]"

definition nat_of_bits :: "bool list \<Rightarrow> nat" where
  "nat_of_bits bs = foldl (\<lambda>a b. 2 * a + (if b then 1 else 0)) 0 bs"

text \<open>The first \<open>k\<close> groups of \<open>n\<close> elements.\<close>

definition chunks :: "nat \<Rightarrow> nat \<Rightarrow> 'a list \<Rightarrow> 'a list list" where
  "chunks n k xs = map (\<lambda>i. take n (drop (i * n) xs)) [0..<k]"

definition bits_of_bytes :: "nat list \<Rightarrow> bool list" where
  "bits_of_bytes bs = concat (map (bits_of 8) bs)"

definition bytes_of_bits :: "bool list \<Rightarrow> nat list" where
  "bytes_of_bits bits = map nat_of_bits (chunks 8 (length bits div 8) bits)"

fun split_words :: "string \<Rightarrow> string list" where
  "split_words [] = [[]]"
| "split_words (c # cs) =
     (if c = CHR '' '' then [] # split_words cs
      else (case split_words cs of
              w # ws \<Rightarrow> (c # w) # ws
            | [] \<Rightarrow> [[c]]))"

fun join_words :: "string list \<Rightarrow> string" where
  "join_words [] = []"
| "join_words [w] = w"
| "join_words (w # ws) = w @ CHR '' '' # join_words ws"

text \<open>Modelled from the spec: \<open>hexlify\<close> and \<open>getBytes\<close> of the library, the entropy as
  the hex string \<open>0x...\<close> that \<open>mnemonicToEntropy\<close> returns.\<close>

definition hex_chars :: string where
  "hex_chars = ''0123456789abcdef''"

definition hexlify :: "nat list \<Rightarrow> string" where
  "hexlify bs = ''0x'' @ concat (map (\<lambda>b. [hex_chars ! (b div 16), hex_chars ! (b mod 16)]) bs)"

fun unhex :: "string \<Rightarrow> nat list option" where
  "unhex [] = Some []"
| "unhex [c] = None"
| "unhex (a # b # rest) =
     (if a \<in> set hex_chars \<and> b \<in> set hex_chars
      then (case unhex rest of
              None \<Rightarrow> None
            | Some bs \<Rightarrow> Some ((index_of a hex_chars * 16 + index_of b hex_chars) # bs))
      else None)"

definition getBytes :: "BytesLike \<Rightarrow> nat list result" where
  "getBytes v =
     (case v of
        Uint8Array bs \<Rightarrow> Inr bs
      | HexString s \<Rightarrow>
          (if take 2 s = ''0x''
           then (case unhex (drop 2 s) of
                   Some bs \<Rightarrow> Inr bs
                 | None \<Rightarrow> Inl (TypeError ''invalid BytesLike value''))
           else Inl (TypeError ''invalid BytesLike value'')))"

text \<open>Modelled from the spec: the word sequence of an entropy (\<open>fromEntropy\<close>).\<close>

definition bip39_encode :: "(nat list \<Rightarrow> nat list) \<Rightarrow> string list \<Rightarrow> nat list \<Rightarrow> string" where
  "bip39_encode H wl e =
     (let bits = bits_of_bytes e @ take (length e div 4) (bits_of_bytes (H e))
      in join_words (map (\<lambda>c. wl ! nat_of_bits c) (chunks 11 (length bits div 11) bits)))"

text \<open>Modelled from the spec: the entropy of a word sequence (\<open>toEntropy\<close>), which fails
  on a wrong number of words, on a word that is not in the list and on a checksum that
  is not the recomputed one.\<close>

definition bip39_decode ::
  "(nat list \<Rightarrow> nat list) \<Rightarrow> string list \<Rightarrow> string \<Rightarrow> nat list result" where
  "bip39_decode H wl p =
     (let ws = split_words p; n = length ws
      in if n \<notin> {12, 15, 18, 21, 24} then Inl (Error ''invalid mnemonic length'')
         else if \<not> list_all (\<lambda>w. w \<in> set wl) ws then Inl (Error ''invalid mnemonic word'')
         else (let bits = concat (map (\<lambda>w. bits_of 11 (index_of w wl)) ws);
                   ent = 32 * (n div 3);
                   e = bytes_of_bits (take ent bits)
               in if drop ent bits = take (n div 3) (bits_of_bytes (H e)) then Inr e
                  else Inl (Error ''invalid mnemonic checksum'')))"

text \<open>Modelled from the spec: the two library functions on these encodings.\<close>

definition bip39_fromEntropy ::
  "(nat list \<Rightarrow> nat list) \<Rightarrow> string list \<Rightarrow> BytesLike \<Rightarrow> Mnemonic result" where
  "bip39_fromEntropy H wl v =
     (case getBytes v of
        Inl err \<Rightarrow> Inl err
      | Inr e \<Rightarrow>
          if length e \<in> {16, 20, 24, 28, 32} \<and> list_all (\<lambda>b. b < 256) e
          then Inr \<lparr>phrase = bip39_encode H wl e, entropy = hexlify e\<rparr>
          else Inl (Error ''invalid entropy size''))"

definition bip39_fromPhrase ::
  "(nat list \<Rightarrow> nat list) \<Rightarrow> string list \<Rightarrow> string \<Rightarrow> Mnemonic result" where
  "bip39_fromPhrase H wl p =
     (case bip39_decode H wl p of
        Inl err \<Rightarrow> Inl err
      | Inr e \<Rightarrow> Inr \<lparr>phrase = p, entropy = hexlify e\<rparr>)"

text \<open>Modelled from the spec: a library whose two seed functions are these.\<close>

definition bip39_ethers :: "(nat list \<Rightarrow> nat list) \<Rightarrow> string list \<Rightarrow> ethers \<Rightarrow> ethers" where
  "bip39_ethers H wl E =
     E\<lparr>Mnemonic_fromPhrase := bip39_fromPhrase H wl,
       Mnemonic_fromEntropy := bip39_fromEntropy H wl\<rparr>"

text \<open>What the model asks of its parameters: a list of 2048 different words without
  spaces, and a hash of 32 bytes.\<close>

definition wordlist_ok :: "string list \<Rightarrow> bool" where
  "wordlist_ok wl =
     (length wl = 2048 \<and> distinct wl \<and> list_all (\<lambda>w. CHR '' '' \<notin> set w) wl)"

definition hash_ok :: "(nat list \<Rightarrow> nat list) \<Rightarrow> bool" where
  "hash_ok H = (\<forall>x. length (H x) = 32)"

section \<open>Instances for evaluation\<close>

text \<open>
  A small instance of the library parameter, on which the model is evaluated at concrete
  inputs.  It accepts one phrase, derives keys from a two-entry table and knows the
  account of one key.  \<open>offline\<close> is the network on which every backend call fails.
\<close>

definition test_phrase :: string where
  "test_phrase =
     ''abandon abandon abandon abandon abandon abandon abandon abandon abandon abandon abandon about''"

definition test_evm_key :: string where
  "test_evm_key = ''0x1ab42cc412b618bdea3a599e3c9bae199ebf030895b039e9db1e30dafb12b727''"

definition test_btc_key :: string where
  "test_btc_key = ''0xe284129cc0922579a535bbf4d1a3b25773090d28c909bc0fed73b5e0222cc372''"

definition test_evm_address :: string where
  "test_evm_address = ''0x9858EfFD232B4033E47d90003D41EC34EcaEda94''"

definition test_ethers :: ethers where
  "test_ethers =
     \<lparr>Mnemonic_fromPhrase = (\<lambda>p.
        if p = test_phrase
        then Inr \<lparr>phrase = test_phrase, entropy = ''0x00000000000000000000000000000000''\<rparr>
        else Inl (Error ''invalid mnemonic'')),
      Mnemonic_fromEntropy = (\<lambda>b.
        if b = Uint8Array (replicate 16 0) \<or> b = HexString ''0x00000000000000000000000000000000''
        then Inr \<lparr>phrase = test_phrase, entropy = ''0x00000000000000000000000000000000''\<rparr>
        else Inl (Error ''invalid entropy'')),
      HDNodeWallet_fromPhrase = (\<lambda>p pw path.
        if p \<noteq> test_phrase then Inl (Error ''invalid mnemonic'')
        else if path = ''m/44'/60'/0'/0/0'' then Inr test_evm_key
        else if path = ''m/44'/0'/0'/0/0'' then Inr test_btc_key
        else Inl (Error ''invalid path'')),
      Wallet_new = (\<lambda>k.
        if k = test_evm_key then Inr test_evm_address
        else Inl (TypeError ''invalid private key'')),
      Wallet_signMessage = (\<lambda>k m. Inl (Error ''unsupported operation'')),
      isAddress = (\<lambda>a. a = test_evm_address),
      formatUnits = (\<lambda>v d. Number_toString (nat v)),
      formatEther = (\<lambda>v. Number_toString (nat v)),
      parseUnits = (\<lambda>s d. if s = ''1'' then Inr (10 ^ nat d) else Inl (TypeError ''invalid FixedNumber string value'')),
      parseEther = (\<lambda>s. if s = ''1'' then Inr (10 ^ 18) else Inl (TypeError ''invalid FixedNumber string value''))\<rparr>"

definition offline :: network where
  "offline =
     \<lparr>rpc_getNetwork = (\<lambda>url. Inl (Error ''fetch failed'')),
      rpc_getBalance = (\<lambda>url a. Inl (Error ''fetch failed'')),
      rpc_erc20 = (\<lambda>url t a. Inl (Error ''fetch failed'')),
      rpc_estimateGas = (\<lambda>url k t v. Inl (Error ''fetch failed'')),
      rpc_getFeeData = (\<lambda>url. Inl (Error ''fetch failed'')),
      rpc_sendTransaction = (\<lambda>url k t v. Inl (Error ''fetch failed'')),
      fetch_address = (\<lambda>url. Inl (TypeError ''fetch failed'')),
      fetch_fee_estimates = (\<lambda>url. Inl (TypeError ''fetch failed''))\<rparr>"

text \<open>Two more networks: on \<open>fee_data_down\<close> the gas estimate of a token transfer
  is answered and the fee data is not; on \<open>no_gas_price\<close> the fee data is answered
  with a \<open>null\<close> gas price.\<close>

definition fee_data_down :: network where
  "fee_data_down = offline\<lparr>rpc_estimateGas := (\<lambda>url k t v. Inr 65000)\<rparr>"

definition no_gas_price :: network where
  "no_gas_price =
     offline\<lparr>rpc_estimateGas := (\<lambda>url k t v. Inr 65000),
             rpc_getFeeData := (\<lambda>url. Inr None)\<rparr>"

definition test_wallet :: ClawCashWallet where
  "test_wallet = \<lparr>keyManager = KeyManager_new test_phrase,
                   config = empty_config\<lparr>config_mnemonic := Some test_phrase\<rparr>\<rparr>"

definition test_toFixed8 :: "int \<Rightarrow> string" where
  "test_toFixed8 n = Number_toString (nat n)"

definition test_adapter :: EthereumChain where
  "test_adapter =
     \<lparr>chainId = ''1'', name = ''Ethereum'', rpcUrl = ''https://eth.llamarpc.com'',
      explorerUrl = ''https://etherscan.io'', eth_privateKey = test_evm_key,
      wallet = test_evm_address\<rparr>"

definition test_payment :: "string \<Rightarrow> PaymentParams" where
  "test_payment t =
     \<lparr>p_chain = ethereum, p_from = test_evm_address, p_to = test_evm_address,
      p_amount = ''1'', p_token = t, p_gasPrice = None, p_gasLimit = None\<rparr>"

text \<open>A word list and a hash for evaluation: word \<open>i\<close> spells the 11 bits of \<open>i\<close> with
  the letters \<open>a\<close> and \<open>b\<close>; the hash is constant.\<close>

definition test_wordlist :: "string list" where
  "test_wordlist =
     map (\<lambda>i. map (\<lambda>b. if b then CHR ''b'' else CHR ''a'') (bits_of 11 i)) [0..<2048]"

definition test_hash :: "nat list \<Rightarrow> nat list" where
  "test_hash x = replicate 32 0"

text \<open>Twelve words of the list whose last four bits are not the checksum.\<close>

definition test_bad_checksum :: string where
  "test_bad_checksum =
     join_words (map (\<lambda>i. test_wordlist ! i) [0, 0, 0, 0, 0, 0, 0, 0, 0, 0, 0, 1])"

section \<open>Properties of the key manager\<close>

lemma mnemonic_derivePrivateKey [simp]:
  "mnemonic (snd (derivePrivateKey E c km)) = mnemonic km"
  by (simp add: derivePrivateKey_def Let_def split: option.splits sum.splits)

lemma cache_sound_new: "cache_sound E (KeyManager_new S)"
  by (simp add: cache_sound_def KeyManager_new_def)

lemma cache_sound_clear: "cache_sound E (clear km)"
  by (simp add: cache_sound_def clear_def)

lemma cache_sound_derivePrivateKey:
  "cache_sound E km \<Longrightarrow> cache_sound E (snd (derivePrivateKey E c km))"
  by (auto simp: cache_sound_def derivePrivateKey_def Let_def split: option.splits sum.splits)

lemma exportPrivateKeys_loop_keeps:
  "cache_sound E km \<Longrightarrow>
     cache_sound E (snd (exportPrivateKeys_loop E cs res km)) \<and>
     mnemonic (snd (exportPrivateKeys_loop E cs res km)) = mnemonic km"
proof (induction cs arbitrary: res km)
  case Nil
  then show ?case by simp
next
  case (Cons c cs)
  obtain r km' where d: "derivePrivateKey E c km = (r, km')"
    by (cases "derivePrivateKey E c km")
  have sound': "cache_sound E km'"
    using cache_sound_derivePrivateKey [OF Cons.prems, of c] d by simp
  have same': "mnemonic km' = mnemonic km"
    using mnemonic_derivePrivateKey [of E c km] d by simp
  show ?case
  proof (cases r)
    case (Inl e)
    with d sound' same' show ?thesis by simp
  next
    case (Inr k)
    have step: "exportPrivateKeys_loop E (c # cs) res km =
        exportPrivateKeys_loop E cs (res(c \<mapsto> k)) km'"
      using d Inr by simp
    show ?thesis
      unfolding step using Cons.IH [OF sound', of "res(c \<mapsto> k)"] same' by metis
  qed
qed

lemma after_call_keeps:
  assumes "cache_sound E km"
  shows "cache_sound E (after_call E km call) \<and>
     mnemonic (after_call E km call) = mnemonic km"
proof (cases call)
  case (CallDerive c)
  then show ?thesis using assms by (simp add: cache_sound_derivePrivateKey)
next
  case CallExport
  have "after_call E km call =
      snd (exportPrivateKeys_loop E [ethereum, polygon, bsc, arbitrum, bitcoin] Map.empty km)"
    using CallExport by (simp only: after_call.simps exportPrivateKeys_def)
  then show ?thesis
    using exportPrivateKeys_loop_keeps [OF assms] by metis
next
  case CallClear
  then show ?thesis by (simp add: cache_sound_clear) (simp add: clear_def)
next
  case CallGetMnemonic
  then show ?thesis using assms by simp
qed

lemma after_calls_keeps:
  "cache_sound E km \<Longrightarrow>
     cache_sound E (after_calls E km cs) \<and> mnemonic (after_calls E km cs) = mnemonic km"
  unfolding after_calls_def
proof (induction cs arbitrary: km)
  case Nil
  then show ?case by simp
next
  case (Cons c cs)
  from after_call_keeps [OF Cons.prems, of c]
  have "cache_sound E (after_call E km c)" "mnemonic (after_call E km c) = mnemonic km"
    by simp_all
  with Cons.IH [of "after_call E km c"] show ?case by simp
qed

lemma derivePrivateKey_sound:
  "cache_sound E km \<Longrightarrow>
     fst (derivePrivateKey E c km) =
       HDNodeWallet_fromPhrase E (mnemonic km) [] (''m/'' @ DERIVATION_PATHS c)"
  by (auto simp: cache_sound_def derivePrivateKey_def Let_def split: option.splits sum.splits)

lemma derivePrivateKey_cached:
  "fst (derivePrivateKey E c km) = Inr k \<Longrightarrow>
     derivePrivateKey E' c (snd (derivePrivateKey E c km)) = (Inr k, snd (derivePrivateKey E c km))"
  by (auto simp: derivePrivateKey_def Let_def split: option.splits sum.splits)

lemma test_derives_btc:
  "HDNodeWallet_fromPhrase test_ethers test_phrase [] (''m/'' @ DERIVATION_PATHS bitcoin) = Inr test_btc_key"
  by (simp add: test_ethers_def)

text \<open>
  C1.  For a seed phrase \<open>S\<close> for which the library derives the key \<open>k\<close> of a chain
  \<open>C\<close>: at every point of the life of a manager built from \<open>S\<close> (after any calls
  \<open>cs\<close>), \<open>derivePrivateKey(C)\<close> returns \<open>k\<close>, and so does it on any other manager
  built from \<open>S\<close>.  The call after it returns \<open>k\<close> from the cache and leaves the
  manager as it is whatever the library would answer, so it does not derive again.  After
  \<open>clear()\<close> the cache is empty, the next call returns what the library derives, and
  that is \<open>k\<close> again.
\<close>

theorem derivePrivateKey_deterministic:
  assumes valid: "HDNodeWallet_fromPhrase E S [] (''m/'' @ DERIVATION_PATHS C) = Inr k"
  shows "let km = after_calls E (KeyManager_new S) cs;
             other = after_calls E (KeyManager_new S) cs';
             km1 = snd (derivePrivateKey E C km)
         in fst (derivePrivateKey E C km) = Inr k \<and>
            fst (derivePrivateKey E C other) = Inr k \<and>
            (\<forall>E'. derivePrivateKey E' C km1 = (Inr k, km1)) \<and>
            derivedKeys (clear km1) = Map.empty \<and>
            (\<forall>E'. fst (derivePrivateKey E' C (clear km1)) =
                    HDNodeWallet_fromPhrase E' S [] (''m/'' @ DERIVATION_PATHS C)) \<and>
            fst (derivePrivateKey E C (clear km1)) = Inr k"
proof -
  define km where "km = after_calls E (KeyManager_new S) cs"
  define other where "other = after_calls E (KeyManager_new S) cs'"
  define km1 where "km1 = snd (derivePrivateKey E C km)"
  have km: "cache_sound E km" "mnemonic km = S"
    using after_calls_keeps [OF cache_sound_new, of E S cs]
    by (simp_all add: km_def KeyManager_new_def)
  have other: "cache_sound E other" "mnemonic other = S"
    using after_calls_keeps [OF cache_sound_new, of E S cs']
    by (simp_all add: other_def KeyManager_new_def)
  have first: "fst (derivePrivateKey E C km) = Inr k"
    using derivePrivateKey_sound [OF km(1), of C] km(2) valid by simp
  have second: "fst (derivePrivateKey E C other) = Inr k"
    using derivePrivateKey_sound [OF other(1), of C] other(2) valid by simp
  have cached: "derivePrivateKey E' C km1 = (Inr k, km1)" for E'
    unfolding km1_def by (rule derivePrivateKey_cached [OF first])
  have cleared: "derivedKeys (clear km1) = Map.empty"
    by (simp add: clear_def)
  have mn1: "mnemonic (clear km1) = S"
    using km(2) by (simp add: clear_def km1_def)
  have again: "fst (derivePrivateKey E' C (clear km1)) =
      HDNodeWallet_fromPhrase E' S [] (''m/'' @ DERIVATION_PATHS C)" for E'
    using derivePrivateKey_sound [of E' "clear km1" C, OF cache_sound_clear] mn1 by simp
  have same: "fst (derivePrivateKey E C (clear km1)) = Inr k"
    using again [of E] valid by simp
  show ?thesis
    using first second cached cleared again same
    unfolding Let_def km_def [symmetric] other_def [symmetric] km1_def [symmetric]
    by blast
qed

theorem derivePrivateKey_deterministic_witness:
  "HDNodeWallet_fromPhrase test_ethers test_phrase [] (''m/'' @ DERIVATION_PATHS bitcoin)
     = Inr test_btc_key \<and>
   (let km = after_calls test_ethers (KeyManager_new test_phrase) [CallDerive ethereum, CallClear, CallExport];
        other = after_calls test_ethers (KeyManager_new test_phrase) [];
        km1 = snd (derivePrivateKey test_ethers bitcoin km)
    in fst (derivePrivateKey test_ethers bitcoin km) = Inr test_btc_key \<and>
       fst (derivePrivateKey test_ethers bitcoin other) = Inr test_btc_key \<and>
       (\<forall>E'. derivePrivateKey E' bitcoin km1 = (Inr test_btc_key, km1)) \<and>
       derivedKeys (clear km1) = Map.empty \<and>
       (\<forall>E'. fst (derivePrivateKey E' bitcoin (clear km1)) =
               HDNodeWallet_fromPhrase E' test_phrase [] (''m/'' @ DERIVATION_PATHS bitcoin)) \<and>
       fst (derivePrivateKey test_ethers bitcoin (clear km1)) = Inr test_btc_key)"
  using derivePrivateKey_deterministic [OF test_derives_btc,
      of "[CallDerive ethereum, CallClear, CallExport]" "[]"] test_derives_btc
  by blast

section \<open>Properties of the base64 signature\<close>

lemma base64_index_nth:
  "distinct xs \<Longrightarrow> n < length xs \<Longrightarrow> base64_index (xs ! n) xs = n"
proof (induction xs arbitrary: n)
  case Nil
  then show ?case by simp
next
  case (Cons x xs)
  show ?case
  proof (cases n)
    case 0
    then show ?thesis by simp
  next
    case (Suc m)
    with Cons.prems have "xs ! m \<in> set xs" "x \<notin> set xs" by simp_all
    then have "x \<noteq> xs ! m" by blast
    with Suc Cons show ?thesis by simp
  qed
qed

lemma length_base64_chars: "length base64_chars = 64"
  by (simp add: base64_chars_def)

lemma distinct_base64_chars: "distinct base64_chars"
  by (simp add: base64_chars_def)

lemma pad_not_base64_char: "CHR ''='' \<notin> set base64_chars"
  by (simp add: base64_chars_def)

lemma base64_index_char: "n < 64 \<Longrightarrow> base64_index (base64_char n) base64_chars = n"
  unfolding base64_char_def
  by (rule base64_index_nth [OF distinct_base64_chars]) (simp add: length_base64_chars)

lemma base64_char_not_pad: "n < 64 \<Longrightarrow> base64_char n \<noteq> CHR ''=''"
  unfolding base64_char_def
  using pad_not_base64_char nth_mem [of n base64_chars] length_base64_chars by metis

lemma sextets:
  fixes a b c :: nat
  assumes "a < 256" "b < 256" "c < 256"
  shows "a div 4 < 64" "(a mod 4) * 16 + b div 16 < 64" "(b mod 16) * 4 + c div 64 < 64"
    "c mod 64 < 64" "(a mod 4) * 16 < 64" "(b mod 16) * 4 < 64"
proof -
  have a4: "a mod 4 < 4" and b16: "b mod 16 < 16" by simp_all
  have bd: "b div 16 < 16" and cd: "c div 64 < 4" and ad: "a div 4 < 64"
    using assms by (simp_all add: less_mult_imp_div_less)
  show "a div 4 < 64" by (rule ad)
  show "(a mod 4) * 16 + b div 16 < 64" using a4 bd by linarith
  show "(b mod 16) * 4 + c div 64 < 64" using b16 cd by linarith
  show "c mod 64 < 64" by simp
  show "(a mod 4) * 16 < 64" using a4 by linarith
  show "(b mod 16) * 4 < 64" using b16 by linarith
qed

lemma div_mod_join:
  fixes h l k :: nat
  assumes "l < k"
  shows "(h * k + l) div k = h" "(h * k + l) mod k = l"
  using assms by simp_all

lemma octets:
  fixes a b c :: nat
  assumes "a < 256" "b < 256" "c < 256"
  shows "a div 4 * 4 + ((a mod 4) * 16 + b div 16) div 16 = a"
    "(((a mod 4) * 16 + b div 16) mod 16) * 16 + ((b mod 16) * 4 + c div 64) div 4 = b"
    "(((b mod 16) * 4 + c div 64) mod 4) * 64 + c mod 64 = c"
    "a div 4 * 4 + ((a mod 4) * 16) div 16 = a"
    "(((a mod 4) * 16 + b div 16) mod 16) * 16 + ((b mod 16) * 4) div 4 = b"
proof -
  have bd: "b div 16 < 16" and cd: "c div 64 < 4"
    using assms by (simp_all add: less_mult_imp_div_less)
  have 1: "((a mod 4) * 16 + b div 16) div 16 = a mod 4"
    by (rule div_mod_join(1) [OF bd])
  have 2: "((a mod 4) * 16 + b div 16) mod 16 = b div 16"
    by (rule div_mod_join(2) [OF bd])
  have 3: "((b mod 16) * 4 + c div 64) div 4 = b mod 16"
    by (rule div_mod_join(1) [OF cd])
  have 4: "((b mod 16) * 4 + c div 64) mod 4 = c div 64"
    by (rule div_mod_join(2) [OF cd])
  show "a div 4 * 4 + ((a mod 4) * 16 + b div 16) div 16 = a"
    unfolding 1 by simp
  show "(((a mod 4) * 16 + b div 16) mod 16) * 16 + ((b mod 16) * 4 + c div 64) div 4 = b"
    unfolding 2 3 by simp
  show "(((b mod 16) * 4 + c div 64) mod 4) * 64 + c mod 64 = c"
    unfolding 4 by simp
  show "a div 4 * 4 + ((a mod 4) * 16) div 16 = a"
    by simp
  show "(((a mod 4) * 16 + b div 16) mod 16) * 16 + ((b mod 16) * 4) div 4 = b"
    unfolding 2 by simp
qed


lemma base64_decode_encode:
  "\<forall>b \<in> set bs. b < 256 \<Longrightarrow> base64_decode (toString_base64 bs) = bs"
proof (induction bs rule: toString_base64.induct)
  case (1 a b c rest)
  then have lt: "a < 256" "b < 256" "c < 256" and rest: "\<forall>b \<in> set rest. b < 256"
    by simp_all
  note s = sextets [OF lt] and oct = octets [OF lt]
  note idx = s(1-4) [THEN base64_index_char] and pad = s(1-4) [THEN base64_char_not_pad]
  show ?case
    by (simp only: toString_base64.simps append_Cons append_Nil base64_decode.simps Let_def
        idx pad if_False oct "1.IH" [OF rest])
next
  case (2 a b)
  then have lt: "a < 256" "b < 256" "(0::nat) < 256" by simp_all
  note s = sextets [OF lt] and oct = octets [OF lt]
  note idx = s(1,2,6) [THEN base64_index_char] and pad = s(1,2,6) [THEN base64_char_not_pad]
  show ?case
    by (simp only: toString_base64.simps append_Cons append_Nil base64_decode.simps Let_def
        idx pad if_False if_True oct refl)
next
  case (3 a)
  then have lt: "a < 256" "(0::nat) < 256" "(0::nat) < 256" by simp_all
  note s = sextets [OF lt] and oct = octets [OF lt]
  note idx = s(1,5) [THEN base64_index_char] and pad = s(1,5) [THEN base64_char_not_pad]
  show ?case
    by (simp only: toString_base64.simps append_Cons append_Nil base64_decode.simps Let_def
        idx pad if_False if_True oct refl)
next
  case 4
  show ?case by simp
qed

lemma Buffer_roundtrip:
  "Buffer_toString (base64_decode (toString_base64 (Buffer_from s))) = s"
proof -
  have "\<forall>b \<in> set (Buffer_from s). b < 256"
    by (auto simp: Buffer_from_def)
  then show ?thesis
    by (simp add: base64_decode_encode) (simp add: Buffer_from_def Buffer_toString_def comp_def)
qed

text \<open>
  C8.  For every private key \<open>pk\<close> and message \<open>m\<close>, \<open>signMessage(m)\<close> of the Bitcoin
  adapter returns the base64 encoding of the bytes of \<open>pk + m\<close>, and decoding the
  signature from base64 gives back \<open>pk\<close> followed by \<open>m\<close>: the signature discloses
  the private key.
\<close>

theorem signMessage_discloses_key:
  "\<exists>sig. BitcoinChain_signMessage (BitcoinChain_new pk rpc) m = Inr sig \<and>
     sig = toString_base64 (Buffer_from (pk @ m)) \<and>
     Buffer_toString (base64_decode sig) = pk @ m"
  by (simp add: BitcoinChain_signMessage_def BitcoinChain_new_def Buffer_roundtrip)

section \<open>Properties of the adapters' addresses\<close>

lemma EthereumChain_new_address:
  assumes "c \<in> {ethereum, polygon, bsc, arbitrum}"
  shows "(case EthereumChain_new E c k rpc of
            Inl e \<Rightarrow> Inl e
          | Inr a \<Rightarrow> Inr (getAddress (Evm a))) = Wallet_new E k"
  using assms
  by (auto simp: EthereumChain_new_def EthereumChain_getAddress_def split: sum.splits)

lemma test_derives_evm:
  "HDNodeWallet_fromPhrase test_ethers test_phrase [] (''m/'' @ DERIVATION_PATHS ethereum) = Inr test_evm_key"
  by (simp add: test_ethers_def)

text \<open>
  C10.  The four EVM chains have the one derivation path \<open>44'/60'/0'/0/0\<close>.  So, at
  every point of the life of a manager, \<open>derivePrivateKey\<close> returns for any two of them
  the same result, also when the two calls follow each other; and the adapters the
  factories of two EVM chains build from one key have the same address (or both
  constructors throw what \<open>new ethers.Wallet\<close> throws).
\<close>

theorem evm_chains_share_key:
  assumes "c1 \<in> {ethereum, polygon, bsc, arbitrum}" and "c2 \<in> {ethereum, polygon, bsc, arbitrum}"
  shows "DERIVATION_PATHS c1 = ''44'/60'/0'/0/0'' \<and>
         DERIVATION_PATHS c2 = DERIVATION_PATHS c1 \<and>
         (let km = after_calls E (KeyManager_new S) cs
          in fst (derivePrivateKey E c2 km) = fst (derivePrivateKey E c1 km) \<and>
             fst (derivePrivateKey E c2 (snd (derivePrivateKey E c1 km))) =
               fst (derivePrivateKey E c1 km)) \<and>
         (\<forall>k rpc1 rpc2.
            (case EthereumChain_new E c1 k rpc1 of
               Inl e \<Rightarrow> Inl e
             | Inr a \<Rightarrow> Inr (getAddress (Evm a))) =
            (case EthereumChain_new E c2 k rpc2 of
               Inl e \<Rightarrow> Inl e
             | Inr a \<Rightarrow> Inr (getAddress (Evm a))))"
proof -
  define km where "km = after_calls E (KeyManager_new S) cs"
  have km: "cache_sound E km"
    using after_calls_keeps [OF cache_sound_new, of E S cs] by (simp add: km_def)
  have p1: "DERIVATION_PATHS c1 = ''44'/60'/0'/0/0''"
    using assms(1) by auto
  have p2: "DERIVATION_PATHS c2 = ''44'/60'/0'/0/0''"
    using assms(2) by auto
  have a: "fst (derivePrivateKey E c2 km) = fst (derivePrivateKey E c1 km)"
    using derivePrivateKey_sound [OF km] p1 p2 by simp
  have km': "cache_sound E (snd (derivePrivateKey E c1 km))"
    by (rule cache_sound_derivePrivateKey [OF km])
  have b: "fst (derivePrivateKey E c2 (snd (derivePrivateKey E c1 km))) =
      fst (derivePrivateKey E c1 km)"
    using derivePrivateKey_sound [OF km', of c2] derivePrivateKey_sound [OF km, of c1] p1 p2
    by simp
  have c: "(case EthereumChain_new E c1 k rpc1 of
               Inl e \<Rightarrow> Inl e
             | Inr a \<Rightarrow> Inr (getAddress (Evm a))) =
            (case EthereumChain_new E c2 k rpc2 of
               Inl e \<Rightarrow> Inl e
             | Inr a \<Rightarrow> Inr (getAddress (Evm a)))" for k rpc1 rpc2
    unfolding EthereumChain_new_address [OF assms(1)] EthereumChain_new_address [OF assms(2)] ..
  show ?thesis
    using p1 p2 a b c unfolding Let_def km_def [symmetric] by simp
qed

theorem evm_chains_share_key_witness:
  "ethereum \<in> {ethereum, polygon, bsc, arbitrum} \<and> arbitrum \<in> {ethereum, polygon, bsc, arbitrum} \<and>
   DERIVATION_PATHS ethereum = ''44'/60'/0'/0/0'' \<and>
   DERIVATION_PATHS arbitrum = DERIVATION_PATHS ethereum \<and>
   (let km = after_calls test_ethers (KeyManager_new test_phrase) [CallDerive polygon]
    in fst (derivePrivateKey test_ethers arbitrum km) = fst (derivePrivateKey test_ethers ethereum km) \<and>
       fst (derivePrivateKey test_ethers arbitrum (snd (derivePrivateKey test_ethers ethereum km))) =
         fst (derivePrivateKey test_ethers ethereum km)) \<and>
   (\<forall>k rpc1 rpc2.
      (case EthereumChain_new test_ethers ethereum k rpc1 of
         Inl e \<Rightarrow> Inl e
       | Inr a \<Rightarrow> Inr (getAddress (Evm a))) =
      (case EthereumChain_new test_ethers arbitrum k rpc2 of
         Inl e \<Rightarrow> Inl e
       | Inr a \<Rightarrow> Inr (getAddress (Evm a))))"
proof -
  have h1: "ethereum \<in> {ethereum, polygon, bsc, arbitrum}"
    and h2: "arbitrum \<in> {ethereum, polygon, bsc, arbitrum}" by simp_all
  show ?thesis
    using evm_chains_share_key [OF h1 h2, of test_ethers test_phrase "[CallDerive polygon]"] h1 h2
    by blast
qed

lemma x_not_hex: "hex_digit c \<Longrightarrow> c \<noteq> CHR ''x''"
  by (auto simp: hex_digit_def)

lemma slices_differ:
  assumes "list_all hex_digit h"
  shows "slice (''0x'' @ h) 0 38 \<noteq> slice (''0x'' @ h) 2 40"
proof (cases h)
  case Nil
  then show ?thesis by (simp add: slice_def)
next
  case (Cons c1 t)
  show ?thesis
  proof (cases t)
    case Nil
    with Cons show ?thesis by (simp add: slice_def)
  next
    case (Cons c2 u)
    with \<open>h = c1 # t\<close> assms have "c2 \<noteq> CHR ''x''"
      by (simp add: x_not_hex)
    then have "slice (''0x'' @ h) 0 38 ! 1 \<noteq> slice (''0x'' @ h) 2 40 ! 1"
      using Cons \<open>h = c1 # t\<close> by (simp add: slice_def)
    then show ?thesis by metis
  qed
qed

section \<open>Properties of the registry\<close>

lemma registry_get_loaded_evm:
  "c \<in> {ethereum, polygon, bsc, arbitrum} \<Longrightarrow>
     registry_get (loaded_registry E) (chain_string c) = Own (ethereumFactory E c)"
  by (auto simp: registry_get_def loaded_registry_def registerChain_def)

lemma registry_get_loaded_bitcoin:
  "registry_get (loaded_registry E) ''bitcoin'' =
     Own (\<lambda>privateKey rpc. Inr (Btc (BitcoinChain_new privateKey None)))"
  by (simp add: registry_get_def loaded_registry_def registerChain_def)

lemma getChain_registry_unchanged: "snd (getChain reg chain privateKey rpc) = reg"
  by (simp add: getChain_def split: property.splits sum.splits)

lemma loaded_registry_dom:
  "loaded_registry E chain = None \<longleftrightarrow>
     chain \<notin> {''ethereum'', ''polygon'', ''bsc'', ''arbitrum'', ''bitcoin''}"
  by (simp add: loaded_registry_def registerChain_def ChainRegistry_def)

text \<open>
  C6.  The claim asks \<open>getChain\<close> to throw for every identifier without a registered
  factory, and the guard \<open>if (!factory)\<close> is there to do so.  It misses the names every
  object inherits: for \<open>constructor\<close> no factory is registered, and \<open>getChain\<close> does
  not throw but returns \<open>Object(privateKey)\<close>, a value that is no adapter.
\<close>

theorem getChain_constructor:
  "loaded_registry test_ethers ''constructor'' = None \<and>
   fst (getChain (loaded_registry test_ethers) ''constructor'' ''0xabc'' None) =
     Inr (StringObject ''0xabc'')"
proof -
  have none: "loaded_registry test_ethers ''constructor'' = None"
    by (simp add: loaded_registry_dom)
  then show ?thesis
    by (simp add: getChain_def registry_get_def Object_prototype_def call_inherited_def)
qed

text \<open>
  Where the guard works: for every chain identifier that has no registered factory and
  is not the name of a property of \<open>Object.prototype\<close>, \<open>getChain\<close> throws
  \<open>Chain ... not implemented\<close>, returns no adapter and leaves the registry as it was.
\<close>

lemma getChain_unsupported:
  assumes "reg chain = None" and "chain \<notin> set Object_prototype"
  shows "getChain reg chain privateKey rpc =
     (Inl (Error (''Chain '' @ chain @ '' not implemented'')), reg)"
  using assms by (simp add: getChain_def registry_get_def)

lemma getChain_unsupported_solana:
  "loaded_registry test_ethers ''solana'' = None \<and>
   ''solana'' \<notin> set Object_prototype \<and>
   getChain (loaded_registry test_ethers) ''solana'' ''0xabc'' None =
     (Inl (Error ''Chain solana not implemented''), loaded_registry test_ethers)"
proof -
  have h1: "loaded_registry test_ethers ''solana'' = None"
    by (simp add: loaded_registry_dom)
  have h2: "''solana'' \<notin> set Object_prototype"
    by (simp add: Object_prototype_def)
  show ?thesis
    using getChain_unsupported [of "loaded_registry test_ethers" "''solana''" "''0xabc''" None,
        OF h1 h2] h1 h2
    by simp
qed

section \<open>Properties of the orchestrator\<close>

lemma getChain_loaded_evm:
  assumes "c \<in> {ethereum, polygon, bsc, arbitrum}" and "Wallet_new E k = Inr a"
  shows "\<exists>inst. fst (getChain (loaded_registry E) (chain_string c) k None) = Inr (Instance (Evm inst))
           \<and> getAddress (Evm inst) = a"
proof -
  from EthereumChain_new_address [OF assms(1), of E k None] assms(2)
  obtain inst where "EthereumChain_new E c k None = Inr inst" "getAddress (Evm inst) = a"
    by (auto split: sum.splits)
  then show ?thesis
    by (simp add: getChain_def registry_get_loaded_evm [OF assms(1)] ethereumFactory_def)
qed

lemma getAddresses_loop_step:
  assumes "c \<in> {ethereum, polygon, bsc, arbitrum}"
    and "fst (derivePrivateKey E c (keyManager w)) = Inr k"
    and "Wallet_new E k = Inr a"
  shows "getAddresses_loop (loaded_registry E) E N (c # rest) addresses w =
     getAddresses_loop (loaded_registry E) E N rest (addresses(c \<mapsto> a))
       (w\<lparr>keyManager := snd (derivePrivateKey E c (keyManager w))\<rparr>)"
proof -
  obtain km where d: "derivePrivateKey E c (keyManager w) = (Inr k, km)"
    using assms(2) by (cases "derivePrivateKey E c (keyManager w)") simp
  from getChain_loaded_evm [OF assms(1,3)]
  obtain inst where g: "fst (getChain (loaded_registry E) (chain_string c) k None) = Inr (Instance (Evm inst))"
    and a: "getAddress (Evm inst) = a" by blast
  have a': "EthereumChain_getAddress inst = a"
    using a by simp
  have gd: "getChain_derived (loaded_registry E) E c w = (Inr (Instance (Evm inst)), w\<lparr>keyManager := km\<rparr>)"
    by (simp add: getChain_derived_def d g)
  show ?thesis
    by (simp only: getAddresses_loop.simps gd d snd_conv) (simp add: method_of_def a' Let_def)
qed

lemma getBitcoinAddress_ok:
  assumes "fst (derivePrivateKey E bitcoin (keyManager w)) = Inr kb"
  shows "fst (getBitcoinAddress E w) = Inr (''bc1q'' @ slice kb 0 38)"
  using assms by (auto simp: getBitcoinAddress_def split: prod.splits sum.splits)

text \<open>One step of the loop, on the manager alone.\<close>

lemma derive_step:
  assumes "cache_sound E km" and "mnemonic km = S"
    and "HDNodeWallet_fromPhrase E S [] (''m/'' @ DERIVATION_PATHS c) = Inr k"
  shows "fst (derivePrivateKey E c km) = Inr k"
    and "cache_sound E (snd (derivePrivateKey E c km))"
    and "mnemonic (snd (derivePrivateKey E c km)) = S"
  using derivePrivateKey_sound [OF assms(1), of c] assms(2,3)
    cache_sound_derivePrivateKey [OF assms(1), of c]
  by simp_all

lemma getAddresses_ok:
  assumes sound: "cache_sound E (keyManager w)" and mn: "mnemonic (keyManager w) = S"
    and evm: "HDNodeWallet_fromPhrase E S [] ''m/44'/60'/0'/0/0'' = Inr k"
    and acct: "Wallet_new E k = Inr a"
    and btc: "HDNodeWallet_fromPhrase E S [] ''m/44'/0'/0'/0/0'' = Inr kb"
  shows "fst (getAddresses (loaded_registry E) E N w) =
     Inr [ethereum \<mapsto> a, polygon \<mapsto> a, bsc \<mapsto> a, arbitrum \<mapsto> a,
          bitcoin \<mapsto> ''bc1q'' @ slice kb 0 38]"
proof -
  define km1 where "km1 = snd (derivePrivateKey E ethereum (keyManager w))"
  define km2 where "km2 = snd (derivePrivateKey E polygon km1)"
  define km3 where "km3 = snd (derivePrivateKey E bsc km2)"
  define km4 where "km4 = snd (derivePrivateKey E arbitrum km3)"
  define w1 where "w1 = w\<lparr>keyManager := km1\<rparr>"
  define w2 where "w2 = w1\<lparr>keyManager := km2\<rparr>"
  define w3 where "w3 = w2\<lparr>keyManager := km3\<rparr>"
  define w4 where "w4 = w3\<lparr>keyManager := km4\<rparr>"
  have e1: "HDNodeWallet_fromPhrase E S [] (''m/'' @ DERIVATION_PATHS ethereum) = Inr k"
    and e2: "HDNodeWallet_fromPhrase E S [] (''m/'' @ DERIVATION_PATHS polygon) = Inr k"
    and e3: "HDNodeWallet_fromPhrase E S [] (''m/'' @ DERIVATION_PATHS bsc) = Inr k"
    and e4: "HDNodeWallet_fromPhrase E S [] (''m/'' @ DERIVATION_PATHS arbitrum) = Inr k"
    and e5: "HDNodeWallet_fromPhrase E S [] (''m/'' @ DERIVATION_PATHS bitcoin) = Inr kb"
    using evm btc by simp_all
  note s1 = derive_step [OF sound mn e1, folded km1_def]
  note s2 = derive_step [OF s1(2,3) e2, folded km2_def]
  note s3 = derive_step [OF s2(2,3) e3, folded km3_def]
  note s4 = derive_step [OF s3(2,3) e4, folded km4_def]
  note s5 = derive_step [OF s4(2,3) e5]
  have k1: "keyManager w1 = km1" and k2: "keyManager w2 = km2"
    and k3: "keyManager w3 = km3" and k4: "keyManager w4 = km4"
    by (simp_all add: w1_def w2_def w3_def w4_def)
  have l1: "getAddresses_loop (loaded_registry E) E N [ethereum, polygon, bsc, arbitrum] Map.empty w =
      getAddresses_loop (loaded_registry E) E N [polygon, bsc, arbitrum] [ethereum \<mapsto> a] w1"
    unfolding w1_def km1_def
    by (rule getAddresses_loop_step [OF _ derive_step(1) [OF sound mn e1] acct]) simp
  have l2: "getAddresses_loop (loaded_registry E) E N [polygon, bsc, arbitrum] [ethereum \<mapsto> a] w1 =
      getAddresses_loop (loaded_registry E) E N [bsc, arbitrum] [ethereum \<mapsto> a, polygon \<mapsto> a] w2"
    unfolding w2_def km2_def k1 [symmetric]
    by (rule getAddresses_loop_step [OF _ _ acct]) (simp_all add: k1 s2(1) [unfolded km2_def])
  have l3: "getAddresses_loop (loaded_registry E) E N [bsc, arbitrum] [ethereum \<mapsto> a, polygon \<mapsto> a] w2 =
      getAddresses_loop (loaded_registry E) E N [arbitrum] [ethereum \<mapsto> a, polygon \<mapsto> a, bsc \<mapsto> a] w3"
    unfolding w3_def km3_def k2 [symmetric]
    by (rule getAddresses_loop_step [OF _ _ acct]) (simp_all add: k2 s3(1) [unfolded km3_def])
  have l4: "getAddresses_loop (loaded_registry E) E N [arbitrum] [ethereum \<mapsto> a, polygon \<mapsto> a, bsc \<mapsto> a] w3 =
      getAddresses_loop (loaded_registry E) E N []
        [ethereum \<mapsto> a, polygon \<mapsto> a, bsc \<mapsto> a, arbitrum \<mapsto> a] w4"
    unfolding w4_def km4_def k3 [symmetric]
    by (rule getAddresses_loop_step [OF _ _ acct]) (simp_all add: k3 s4(1) [unfolded km4_def])
  have loop: "getAddresses_loop (loaded_registry E) E N [ethereum, polygon, bsc, arbitrum] Map.empty w =
      (Inr [ethereum \<mapsto> a, polygon \<mapsto> a, bsc \<mapsto> a, arbitrum \<mapsto> a], w4)"
    unfolding l1 l2 l3 l4 by simp
  have b: "fst (getBitcoinAddress E w4) = Inr (''bc1q'' @ slice kb 0 38)"
    by (rule getBitcoinAddress_ok) (simp add: k4 s5(1))
  show ?thesis
    unfolding getAddresses_def loop using b
    by (cases "getBitcoinAddress E w4") simp
qed

lemma Chain_UNIV: "(UNIV :: Chain set) = {ethereum, polygon, bsc, arbitrum, bitcoin}"
  by (auto intro: Chain.exhaust)

lemma test_wallet_new: "Wallet_new test_ethers test_evm_key = Inr test_evm_address"
  by (simp add: test_ethers_def)

lemma test_derives_evm_path:
  "HDNodeWallet_fromPhrase test_ethers test_phrase [] ''m/44'/60'/0'/0/0'' = Inr test_evm_key"
  by (simp add: test_ethers_def)

lemma test_derives_btc_path:
  "HDNodeWallet_fromPhrase test_ethers test_phrase [] ''m/44'/0'/0'/0/0'' = Inr test_btc_key"
  by (simp add: test_ethers_def)

text \<open>
  C5.  For a wallet whose phrase the library derives keys for (and builds the EVM account
  of), on the registry the module sets up: \<open>getAddresses\<close> returns, on every network
  \<open>N\<close>, so also when \<open>connect()\<close> fails for every chain, a mapping with an address for
  each of the five chains.
\<close>

theorem getAddresses_never_raises:
  assumes "keyManager w = after_calls E (KeyManager_new S) cs"
    and "HDNodeWallet_fromPhrase E S [] ''m/44'/60'/0'/0/0'' = Inr k"
    and "Wallet_new E k = Inr a"
    and "HDNodeWallet_fromPhrase E S [] ''m/44'/0'/0'/0/0'' = Inr kb"
  shows "\<exists>addresses.
           fst (getAddresses (loaded_registry E) E N w) = Inr addresses \<and>
           dom addresses = UNIV \<and>
           addresses = [ethereum \<mapsto> a, polygon \<mapsto> a, bsc \<mapsto> a, arbitrum \<mapsto> a,
                        bitcoin \<mapsto> ''bc1q'' @ slice kb 0 38]"
proof -
  have sound: "cache_sound E (keyManager w)" and mn: "mnemonic (keyManager w) = S"
    using after_calls_keeps [OF cache_sound_new, of E S cs] assms(1)
    by (simp_all add: KeyManager_new_def)
  have "dom [ethereum \<mapsto> a, polygon \<mapsto> a, bsc \<mapsto> a, arbitrum \<mapsto> a,
             bitcoin \<mapsto> ''bc1q'' @ slice kb 0 38] = UNIV"
    unfolding Chain_UNIV by auto
  with getAddresses_ok [OF sound mn assms(2,3,4), of N] show ?thesis
    by blast
qed

lemma connect_offline:
  "connect offline (Evm inst) =
     Inl (Error (''Failed to connect to '' @ name inst @ '': Error: fetch failed''))"
  by (simp add: EthereumChain_connect_def offline_def)

theorem getAddresses_never_raises_witness:
  "keyManager test_wallet = after_calls test_ethers (KeyManager_new test_phrase) [] \<and>
   HDNodeWallet_fromPhrase test_ethers test_phrase [] ''m/44'/60'/0'/0/0'' = Inr test_evm_key \<and>
   Wallet_new test_ethers test_evm_key = Inr test_evm_address \<and>
   HDNodeWallet_fromPhrase test_ethers test_phrase [] ''m/44'/0'/0'/0/0'' = Inr test_btc_key \<and>
   (\<forall>inst. isl (connect offline (Evm inst))) \<and>
   (\<exists>addresses.
      fst (getAddresses (loaded_registry test_ethers) test_ethers offline test_wallet) = Inr addresses \<and>
      dom addresses = UNIV \<and>
      addresses = [ethereum \<mapsto> test_evm_address, polygon \<mapsto> test_evm_address,
                   bsc \<mapsto> test_evm_address, arbitrum \<mapsto> test_evm_address,
                   bitcoin \<mapsto> ''bc1q'' @ slice test_btc_key 0 38])"
proof -
  have h: "keyManager test_wallet = after_calls test_ethers (KeyManager_new test_phrase) []"
    by (simp add: test_wallet_def after_calls_def)
  show ?thesis
    using getAddresses_never_raises [OF h test_derives_evm_path test_wallet_new
        test_derives_btc_path, of offline]
      h test_derives_evm_path test_wallet_new test_derives_btc_path connect_offline
    by simp
qed

subsection \<open>The Bitcoin entry of \<open>getAddresses\<close>\<close>

lemma derivePrivateKey_other:
  "c \<noteq> c' \<Longrightarrow> derivedKeys (snd (derivePrivateKey E c km)) c' = derivedKeys km c'"
  by (simp add: derivePrivateKey_def Let_def split: option.splits sum.splits)

lemma keyManager_getChain_derived:
  "keyManager (snd (getChain_derived reg E c w)) = snd (derivePrivateKey E c (keyManager w))"
  by (simp add: getChain_derived_def split: prod.splits sum.splits)

lemma getAddresses_loop_keeps_bitcoin:
  "bitcoin \<notin> set cs \<Longrightarrow>
     derivedKeys (keyManager (snd (getAddresses_loop reg E N cs addresses w))) bitcoin =
       derivedKeys (keyManager w) bitcoin \<and>
     mnemonic (keyManager (snd (getAddresses_loop reg E N cs addresses w))) =
       mnemonic (keyManager w)"
proof (induction cs arbitrary: addresses w)
  case Nil
  then show ?case by simp
next
  case (Cons c cs)
  then have c: "c \<noteq> bitcoin" and cs: "bitcoin \<notin> set cs" by auto
  obtain r w' where g: "getChain_derived reg E c w = (r, w')"
    by (cases "getChain_derived reg E c w")
  have w': "derivedKeys (keyManager w') bitcoin = derivedKeys (keyManager w) bitcoin"
    "mnemonic (keyManager w') = mnemonic (keyManager w)"
    using keyManager_getChain_derived [of reg E c w] g derivePrivateKey_other [OF c]
    by simp_all
  show ?case
  proof (cases r)
    case (Inl e)
    with g w' show ?thesis by simp
  next
    case (Inr v)
    show ?thesis
    proof (cases "method_of ''getAddress'' v")
      case (Inl e)
      with g w' Inr show ?thesis by (simp add: Let_def)
    next
      case (Inr ci)
      have "getAddresses_loop reg E N (c # cs) addresses w =
          getAddresses_loop reg E N cs (addresses(c \<mapsto> getAddress ci)) w'"
        using g \<open>r = Inr v\<close> Inr by (simp add: Let_def)
      with Cons.IH [OF cs, of "addresses(c \<mapsto> getAddress ci)" w'] w' show ?thesis
        by metis
    qed
  qed
qed

lemma derivePrivateKey_result_eq:
  "derivedKeys km c = derivedKeys km' c \<Longrightarrow> mnemonic km = mnemonic km' \<Longrightarrow>
     fst (derivePrivateKey E c km) = fst (derivePrivateKey E c km')"
  by (simp add: derivePrivateKey_def Let_def split: option.splits sum.splits)

lemma getAddresses_bitcoin:
  assumes "fst (getAddresses reg E N w) = Inr addresses"
    and "fst (derivePrivateKey E bitcoin (keyManager w)) = Inr pk"
  shows "addresses bitcoin = Some (''bc1q'' @ slice pk 0 38)"
proof -
  obtain r w' where l: "getAddresses_loop reg E N [ethereum, polygon, bsc, arbitrum] Map.empty w = (r, w')"
    by (cases "getAddresses_loop reg E N [ethereum, polygon, bsc, arbitrum] Map.empty w")
  have keep: "derivedKeys (keyManager w') bitcoin = derivedKeys (keyManager w) bitcoin"
    "mnemonic (keyManager w') = mnemonic (keyManager w)"
    using getAddresses_loop_keeps_bitcoin [of "[ethereum, polygon, bsc, arbitrum]" reg E N Map.empty w] l
    by simp_all
  have pk: "fst (derivePrivateKey E bitcoin (keyManager w')) = Inr pk"
    using derivePrivateKey_result_eq [OF keep, of E] assms(2) by simp
  have b: "fst (getBitcoinAddress E w') = Inr (''bc1q'' @ slice pk 0 38)"
    by (rule getBitcoinAddress_ok [OF pk])
  show ?thesis
    using assms(1) l b unfolding getAddresses_def
    by (cases r; cases "getBitcoinAddress E w'") auto
qed

text \<open>
  C9.  For a Bitcoin private key \<open>0x\<close> followed by hexadecimal digits: the Bitcoin entry
  of \<open>getAddresses\<close> is \<open>bc1q\<close> followed by \<open>pk.slice(0, 38)\<close>, the address of the
  Bitcoin adapter built from the key is \<open>bc1q\<close> followed by \<open>pk.slice(2, 40)\<close>, and
  the two differ.
\<close>

theorem bitcoin_addresses_disagree:
  assumes "pk = ''0x'' @ h" and "list_all hex_digit h"
    and "fst (derivePrivateKey E bitcoin (keyManager w)) = Inr pk"
    and "fst (getAddresses reg E N w) = Inr addresses"
  shows "addresses bitcoin = Some (''bc1q'' @ slice pk 0 38) \<and>
         getAddress (Btc (BitcoinChain_new pk rpc)) = ''bc1q'' @ slice pk 2 40 \<and>
         addresses bitcoin \<noteq> Some (getAddress (Btc (BitcoinChain_new pk rpc)))"
proof -
  have a: "addresses bitcoin = Some (''bc1q'' @ slice pk 0 38)"
    by (rule getAddresses_bitcoin [OF assms(4,3)])
  have b: "getAddress (Btc (BitcoinChain_new pk rpc)) = ''bc1q'' @ slice pk 2 40"
    by (simp add: BitcoinChain_getAddress_def BitcoinChain_new_def deriveAddress_def)
  have "slice pk 0 38 \<noteq> slice pk 2 40"
    unfolding assms(1) by (rule slices_differ [OF assms(2)])
  with a b show ?thesis by simp
qed

lemma test_btc_key_hex:
  "test_btc_key = ''0x'' @ drop 2 test_btc_key \<and> list_all hex_digit (drop 2 test_btc_key)"
  by (simp add: test_btc_key_def hex_digit_def)

lemma test_getAddresses:
  "fst (getAddresses (loaded_registry test_ethers) test_ethers offline test_wallet) =
     Inr [ethereum \<mapsto> test_evm_address, polygon \<mapsto> test_evm_address,
          bsc \<mapsto> test_evm_address, arbitrum \<mapsto> test_evm_address,
          bitcoin \<mapsto> ''bc1q'' @ slice test_btc_key 0 38]"
proof -
  have s: "cache_sound test_ethers (keyManager test_wallet)"
    by (simp add: test_wallet_def cache_sound_new)
  have m: "mnemonic (keyManager test_wallet) = test_phrase"
    by (simp add: test_wallet_def KeyManager_new_def)
  show ?thesis
    by (rule getAddresses_ok [OF s m test_derives_evm_path test_wallet_new test_derives_btc_path])
qed

lemma test_wallet_btc:
  "fst (derivePrivateKey test_ethers bitcoin (keyManager test_wallet)) = Inr test_btc_key"
  by (simp add: test_wallet_def KeyManager_new_def derivePrivateKey_def test_ethers_def)

theorem bitcoin_addresses_disagree_witness:
  "test_btc_key = ''0x'' @ drop 2 test_btc_key \<and>
   list_all hex_digit (drop 2 test_btc_key) \<and>
   fst (derivePrivateKey test_ethers bitcoin (keyManager test_wallet)) = Inr test_btc_key \<and>
   fst (getAddresses (loaded_registry test_ethers) test_ethers offline test_wallet) =
     Inr [ethereum \<mapsto> test_evm_address, polygon \<mapsto> test_evm_address,
          bsc \<mapsto> test_evm_address, arbitrum \<mapsto> test_evm_address,
          bitcoin \<mapsto> ''bc1q'' @ slice test_btc_key 0 38] \<and>
   [ethereum \<mapsto> test_evm_address, polygon \<mapsto> test_evm_address,
    bsc \<mapsto> test_evm_address, arbitrum \<mapsto> test_evm_address,
    bitcoin \<mapsto> ''bc1q'' @ slice test_btc_key 0 38] bitcoin =
     Some (''bc1q'' @ slice test_btc_key 0 38) \<and>
   getAddress (Btc (BitcoinChain_new test_btc_key None)) = ''bc1q'' @ slice test_btc_key 2 40 \<and>
   [ethereum \<mapsto> test_evm_address, polygon \<mapsto> test_evm_address,
    bsc \<mapsto> test_evm_address, arbitrum \<mapsto> test_evm_address,
    bitcoin \<mapsto> ''bc1q'' @ slice test_btc_key 0 38] bitcoin \<noteq>
     Some (getAddress (Btc (BitcoinChain_new test_btc_key None)))"
proof -
  have h1: "test_btc_key = ''0x'' @ drop 2 test_btc_key"
    and h2: "list_all hex_digit (drop 2 test_btc_key)"
    using test_btc_key_hex by blast+
  show ?thesis
    using bitcoin_addresses_disagree [OF h1 h2 test_wallet_btc test_getAddresses, of None]
      h1 h2 test_wallet_btc test_getAddresses
    by blast
qed

section \<open>Properties of the adapters' failures\<close>

text \<open>
  C2, as stated, fails for the Bitcoin adapter: with a backend that rejects every
  request, \<open>getBalance\<close> returns the zero balance and \<open>estimateFee\<close> the default
  estimate.
\<close>

theorem bitcoin_swallows_backend_failure:
  "fetch_address offline (rpcUrl (BitcoinChain_new test_btc_key None) @ ''/address/''
       @ address (BitcoinChain_new test_btc_key None)) = Inl (TypeError ''fetch failed'') \<and>
   getBalance test_ethers offline test_toFixed8 (Btc (BitcoinChain_new test_btc_key None)) None =
     Inr \<lparr>amount = 0, formatted = ''0'', symbol = ''BTC'', decimals = 8\<rparr> \<and>
   fetch_fee_estimates offline (rpcUrl (BitcoinChain_new test_btc_key None) @ ''/fee-estimates'')
     = Inl (TypeError ''fetch failed'') \<and>
   estimateFee test_ethers offline test_toFixed8 (Btc (BitcoinChain_new test_btc_key None))
       (test_payment ''BTC'') =
     Inr \<lparr>gasFee = 2500, gasPrice = 10, gasLimit = 250, fee_formatted = ''0.00002500''\<rparr>"
  by (simp add: offline_def BitcoinChain_getBalance_def BitcoinChain_estimateFee_def)

text \<open>
  C2, amended.  On an EVM adapter the error of a failing backend call is the error of
  \<open>getBalance\<close> (native or token), of \<open>estimateFee\<close> (whether the gas estimate of a
  token transfer or the fee data fails) and of \<open>sendTransaction\<close> of a native token; a
  token transfer is refused with an error before any backend call.  A fee data read
  that succeeds with a \<open>null\<close> gas price is no error: \<open>estimateFee\<close> then returns an
  estimate with gas price 0 and fee 0.  On the Bitcoin adapter \<open>sendTransaction\<close>
  always throws, and the \<open>catch\<close> blocks of \<open>getBalance\<close> and \<open>estimateFee\<close> turn a
  backend failure into the zero balance and the default estimate.
\<close>

theorem backend_failures:
  "(rpc_getBalance N (rpcUrl a) (wallet a) = Inl ea \<longrightarrow>
      getBalance E N f (Evm a) None = Inl ea) \<and>
   (t \<noteq> [] \<and> rpc_erc20 N (rpcUrl a) t (wallet a) = Inl eb \<longrightarrow>
      getBalance E N f (Evm a) (Some t) = Inl eb) \<and>
   (native_token (p_token p) \<and> rpc_getFeeData N (rpcUrl a) = Inl ec \<longrightarrow>
      estimateFee E N f (Evm a) p = Inl ec) \<and>
   (\<not> native_token (p_token q) \<and> parseUnits E (p_amount q) 18 = Inr v \<and>
    rpc_estimateGas N (rpcUrl a) (eth_privateKey a) (p_to q) v = Inl ed \<longrightarrow>
      estimateFee E N f (Evm a) q = Inl ed) \<and>
   (\<not> native_token (p_token q) \<and> parseUnits E (p_amount q) 18 = Inr v \<and>
    rpc_estimateGas M (rpcUrl a) (eth_privateKey a) (p_to q) v = Inr g \<and>
    rpc_getFeeData M (rpcUrl a) = Inl eh \<longrightarrow>
      estimateFee E M f (Evm a) q = Inl eh) \<and>
   (rpc_getFeeData N (rpcUrl a) = Inl ec \<longrightarrow> isl (estimateFee E N f (Evm a) r)) \<and>
   (native_token (p_token p) \<and> rpc_getFeeData K (rpcUrl a) = Inr None \<longrightarrow>
      estimateFee E K f (Evm a) p =
        Inr \<lparr>gasFee = 0, gasPrice = 0, gasLimit = 21000, fee_formatted = formatEther E 0\<rparr>) \<and>
   (\<not> native_token (p_token q) \<and> parseUnits E (p_amount q) 18 = Inr v \<and>
    rpc_estimateGas K (rpcUrl a) (eth_privateKey a) (p_to q) v = Inr g \<and>
    rpc_getFeeData K (rpcUrl a) = Inr None \<longrightarrow>
      estimateFee E K f (Evm a) q =
        Inr \<lparr>gasFee = 0, gasPrice = 0, gasLimit = g, fee_formatted = formatEther E 0\<rparr>) \<and>
   (native_token (p_token p) \<and> parseEther E (p_amount p) = Inr v' \<and>
    rpc_sendTransaction N (rpcUrl a) (eth_privateKey a) (p_to p) v' = Inl ee \<longrightarrow>
      sendTransaction E N (Evm a) p = Inl ee) \<and>
   (\<not> native_token (p_token q) \<longrightarrow>
      sendTransaction E N (Evm a) q =
        Inl (Error ''ERC-20 transfers require token address configuration'')) \<and>
   sendTransaction E N (Btc b) r =
     Inl (Error ''Bitcoin transactions require bitcoinjs-lib. Install with: npm install bitcoinjs-lib'') \<and>
   (fetch_address N (rpcUrl b @ ''/address/'' @ address b) = Inl ef \<longrightarrow>
      getBalance E N f (Btc b) tok =
        Inr \<lparr>amount = 0, formatted = ''0'', symbol = ''BTC'', decimals = 8\<rparr>) \<and>
   (fetch_fee_estimates N (rpcUrl b @ ''/fee-estimates'') = Inl eg \<longrightarrow>
      estimateFee E N f (Btc b) r =
        Inr \<lparr>gasFee = 2500, gasPrice = 10, gasLimit = 250, fee_formatted = ''0.00002500''\<rparr>)"
proof (intro conjI impI)
  show "getBalance E N f (Evm a) None = Inl ea"
    if "rpc_getBalance N (rpcUrl a) (wallet a) = Inl ea"
    using that by (simp add: EthereumChain_getBalance_def)
  show "getBalance E N f (Evm a) (Some t) = Inl eb"
    if "t \<noteq> [] \<and> rpc_erc20 N (rpcUrl a) t (wallet a) = Inl eb"
    using that by (simp add: EthereumChain_getBalance_def)
  show "estimateFee E N f (Evm a) p = Inl ec"
    if "native_token (p_token p) \<and> rpc_getFeeData N (rpcUrl a) = Inl ec"
    using that by (simp add: EthereumChain_estimateFee_def)
  show "estimateFee E N f (Evm a) q = Inl ed"
    if "\<not> native_token (p_token q) \<and> parseUnits E (p_amount q) 18 = Inr v \<and>
        rpc_estimateGas N (rpcUrl a) (eth_privateKey a) (p_to q) v = Inl ed"
    using that by (simp add: EthereumChain_estimateFee_def)
  show "estimateFee E M f (Evm a) q = Inl eh"
    if "\<not> native_token (p_token q) \<and> parseUnits E (p_amount q) 18 = Inr v \<and>
        rpc_estimateGas M (rpcUrl a) (eth_privateKey a) (p_to q) v = Inr g \<and>
        rpc_getFeeData M (rpcUrl a) = Inl eh"
    using that by (simp add: EthereumChain_estimateFee_def)
  show "isl (estimateFee E N f (Evm a) r)"
    if "rpc_getFeeData N (rpcUrl a) = Inl ec"
    using that by (simp add: EthereumChain_estimateFee_def split: sum.splits)
  show "estimateFee E K f (Evm a) p =
      Inr \<lparr>gasFee = 0, gasPrice = 0, gasLimit = 21000, fee_formatted = formatEther E 0\<rparr>"
    if "native_token (p_token p) \<and> rpc_getFeeData K (rpcUrl a) = Inr None"
    using that by (simp add: EthereumChain_estimateFee_def)
  show "estimateFee E K f (Evm a) q =
      Inr \<lparr>gasFee = 0, gasPrice = 0, gasLimit = g, fee_formatted = formatEther E 0\<rparr>"
    if "\<not> native_token (p_token q) \<and> parseUnits E (p_amount q) 18 = Inr v \<and>
        rpc_estimateGas K (rpcUrl a) (eth_privateKey a) (p_to q) v = Inr g \<and>
        rpc_getFeeData K (rpcUrl a) = Inr None"
    using that by (simp add: EthereumChain_estimateFee_def)
  show "sendTransaction E N (Evm a) p = Inl ee"
    if "native_token (p_token p) \<and> parseEther E (p_amount p) = Inr v' \<and>
        rpc_sendTransaction N (rpcUrl a) (eth_privateKey a) (p_to p) v' = Inl ee"
    using that by (simp add: EthereumChain_sendTransaction_def)
  show "sendTransaction E N (Evm a) q =
      Inl (Error ''ERC-20 transfers require token address configuration'')"
    if "\<not> native_token (p_token q)"
    using that by (simp add: EthereumChain_sendTransaction_def)
  show "sendTransaction E N (Btc b) r =
      Inl (Error ''Bitcoin transactions require bitcoinjs-lib. Install with: npm install bitcoinjs-lib'')"
    by (simp add: BitcoinChain_sendTransaction_def)
  show "getBalance E N f (Btc b) tok =
      Inr \<lparr>amount = 0, formatted = ''0'', symbol = ''BTC'', decimals = 8\<rparr>"
    if "fetch_address N (rpcUrl b @ ''/address/'' @ address b) = Inl ef"
    using that by (simp add: BitcoinChain_getBalance_def)
  show "estimateFee E N f (Btc b) r =
      Inr \<lparr>gasFee = 2500, gasPrice = 10, gasLimit = 250, fee_formatted = ''0.00002500''\<rparr>"
    if "fetch_fee_estimates N (rpcUrl b @ ''/fee-estimates'') = Inl eg"
    using that by (simp add: BitcoinChain_estimateFee_def)
qed

theorem backend_failures_witness:
  "rpc_getBalance offline (rpcUrl test_adapter) (wallet test_adapter) = Inl (Error ''fetch failed'') \<and>
   getBalance test_ethers offline test_toFixed8 (Evm test_adapter) None = Inl (Error ''fetch failed'') \<and>
   test_evm_address \<noteq> [] \<and>
   rpc_erc20 offline (rpcUrl test_adapter) test_evm_address (wallet test_adapter)
     = Inl (Error ''fetch failed'') \<and>
   getBalance test_ethers offline test_toFixed8 (Evm test_adapter) (Some test_evm_address)
     = Inl (Error ''fetch failed'') \<and>
   native_token (p_token (test_payment ''ETH'')) \<and>
   rpc_getFeeData offline (rpcUrl test_adapter) = Inl (Error ''fetch failed'') \<and>
   estimateFee test_ethers offline test_toFixed8 (Evm test_adapter) (test_payment ''ETH'')
     = Inl (Error ''fetch failed'') \<and>
   \<not> native_token (p_token (test_payment ''USDT'')) \<and>
   parseUnits test_ethers (p_amount (test_payment ''USDT'')) 18 = Inr (10 ^ 18) \<and>
   rpc_estimateGas offline (rpcUrl test_adapter) (eth_privateKey test_adapter)
       (p_to (test_payment ''USDT'')) (10 ^ 18) = Inl (Error ''fetch failed'') \<and>
   estimateFee test_ethers offline test_toFixed8 (Evm test_adapter) (test_payment ''USDT'')
     = Inl (Error ''fetch failed'') \<and>
   rpc_estimateGas fee_data_down (rpcUrl test_adapter) (eth_privateKey test_adapter)
       (p_to (test_payment ''USDT'')) (10 ^ 18) = Inr 65000 \<and>
   rpc_getFeeData fee_data_down (rpcUrl test_adapter) = Inl (Error ''fetch failed'') \<and>
   estimateFee test_ethers fee_data_down test_toFixed8 (Evm test_adapter) (test_payment ''USDT'')
     = Inl (Error ''fetch failed'') \<and>
   isl (estimateFee test_ethers offline test_toFixed8 (Evm test_adapter) (test_payment ''USDC'')) \<and>
   rpc_getFeeData no_gas_price (rpcUrl test_adapter) = Inr None \<and>
   estimateFee test_ethers no_gas_price test_toFixed8 (Evm test_adapter) (test_payment ''ETH'') =
     Inr \<lparr>gasFee = 0, gasPrice = 0, gasLimit = 21000,
          fee_formatted = formatEther test_ethers 0\<rparr> \<and>
   rpc_estimateGas no_gas_price (rpcUrl test_adapter) (eth_privateKey test_adapter)
       (p_to (test_payment ''USDT'')) (10 ^ 18) = Inr 65000 \<and>
   estimateFee test_ethers no_gas_price test_toFixed8 (Evm test_adapter) (test_payment ''USDT'') =
     Inr \<lparr>gasFee = 0, gasPrice = 0, gasLimit = 65000,
          fee_formatted = formatEther test_ethers 0\<rparr> \<and>
   parseEther test_ethers (p_amount (test_payment ''ETH'')) = Inr (10 ^ 18) \<and>
   rpc_sendTransaction offline (rpcUrl test_adapter) (eth_privateKey test_adapter)
       (p_to (test_payment ''ETH'')) (10 ^ 18) = Inl (Error ''fetch failed'') \<and>
   sendTransaction test_ethers offline (Evm test_adapter) (test_payment ''ETH'')
     = Inl (Error ''fetch failed'') \<and>
   sendTransaction test_ethers offline (Evm test_adapter) (test_payment ''USDT'')
     = Inl (Error ''ERC-20 transfers require token address configuration'') \<and>
   sendTransaction test_ethers offline (Btc (BitcoinChain_new test_btc_key None)) (test_payment ''USDC'') =
     Inl (Error ''Bitcoin transactions require bitcoinjs-lib. Install with: npm install bitcoinjs-lib'') \<and>
   fetch_address offline (rpcUrl (BitcoinChain_new test_btc_key None) @ ''/address/''
       @ address (BitcoinChain_new test_btc_key None)) = Inl (TypeError ''fetch failed'') \<and>
   getBalance test_ethers offline test_toFixed8 (Btc (BitcoinChain_new test_btc_key None)) None =
     Inr \<lparr>amount = 0, formatted = ''0'', symbol = ''BTC'', decimals = 8\<rparr> \<and>
   fetch_fee_estimates offline (rpcUrl (BitcoinChain_new test_btc_key None) @ ''/fee-estimates'')
     = Inl (TypeError ''fetch failed'') \<and>
   estimateFee test_ethers offline test_toFixed8 (Btc (BitcoinChain_new test_btc_key None))
       (test_payment ''USDC'') =
     Inr \<lparr>gasFee = 2500, gasPrice = 10, gasLimit = 250, fee_formatted = ''0.00002500''\<rparr>"
proof -
  have nat: "native_token (p_token (test_payment ''ETH''))"
    and tok: "\<not> native_token (p_token (test_payment ''USDT''))"
    by (simp_all add: native_token_def test_payment_def)
  have pu: "parseUnits test_ethers (p_amount (test_payment ''USDT'')) 18 = Inr (10 ^ 18)"
    and pe: "parseEther test_ethers (p_amount (test_payment ''ETH'')) = Inr (10 ^ 18)"
    by (simp_all add: test_ethers_def test_payment_def)
  have off: "rpc_getBalance offline url ad = Inl (Error ''fetch failed'')"
    "rpc_erc20 offline url t ad = Inl (Error ''fetch failed'')"
    "rpc_getFeeData offline url = Inl (Error ''fetch failed'')"
    "rpc_estimateGas offline url k t x = Inl (Error ''fetch failed'')"
    "rpc_sendTransaction offline url k t x = Inl (Error ''fetch failed'')"
    "fetch_address offline url = Inl (TypeError ''fetch failed'')"
    "fetch_fee_estimates offline url = Inl (TypeError ''fetch failed'')"
    for url ad t k x
    by (simp_all add: offline_def)
  have down: "rpc_estimateGas fee_data_down url k t x = Inr 65000"
    "rpc_getFeeData fee_data_down url = Inl (Error ''fetch failed'')"
    for url k t x
    by (simp_all add: fee_data_down_def offline_def)
  have nogas: "rpc_estimateGas no_gas_price url k t x = Inr 65000"
    "rpc_getFeeData no_gas_price url = Inr None"
    for url k t x
    by (simp_all add: no_gas_price_def offline_def)
  have ne: "test_evm_address \<noteq> []"
    by (simp add: test_evm_address_def)
  show ?thesis
    using backend_failures [where N = offline and M = fee_data_down and K = no_gas_price
        and a = test_adapter and E = test_ethers and f = test_toFixed8
        and t = test_evm_address and p = "test_payment ''ETH''" and q = "test_payment ''USDT''"
        and r = "test_payment ''USDC''" and v = "10 ^ 18" and v' = "10 ^ 18" and g = 65000
        and ea = "Error ''fetch failed''" and eb = "Error ''fetch failed''"
        and ec = "Error ''fetch failed''" and ed = "Error ''fetch failed''"
        and ee = "Error ''fetch failed''" and eh = "Error ''fetch failed''"
        and ef = "TypeError ''fetch failed''" and eg = "TypeError ''fetch failed''"
        and b = "BitcoinChain_new test_btc_key None" and tok = None]
      nat tok pu pe ne
    by (simp only: off down nogas simp_thms)
qed

section \<open>Properties of the validation gate\<close>

text \<open>No operation reads the validator: replacing \<open>Mnemonic.fromPhrase\<close> in the library
  changes no result.\<close>

lemma ethers_fields_validator:
  "HDNodeWallet_fromPhrase (E\<lparr>Mnemonic_fromPhrase := v\<rparr>) = HDNodeWallet_fromPhrase E"
  "Wallet_new (E\<lparr>Mnemonic_fromPhrase := v\<rparr>) = Wallet_new E"
  "Wallet_signMessage (E\<lparr>Mnemonic_fromPhrase := v\<rparr>) = Wallet_signMessage E"
  "formatUnits (E\<lparr>Mnemonic_fromPhrase := v\<rparr>) = formatUnits E"
  "formatEther (E\<lparr>Mnemonic_fromPhrase := v\<rparr>) = formatEther E"
  "parseUnits (E\<lparr>Mnemonic_fromPhrase := v\<rparr>) = parseUnits E"
  "parseEther (E\<lparr>Mnemonic_fromPhrase := v\<rparr>) = parseEther E"
  by simp_all

lemma derivePrivateKey_validator:
  "derivePrivateKey (E\<lparr>Mnemonic_fromPhrase := v\<rparr>) c km = derivePrivateKey E c km"
  unfolding derivePrivateKey_def ethers_fields_validator ..

lemma loaded_registry_validator:
  "loaded_registry (E\<lparr>Mnemonic_fromPhrase := v\<rparr>) = loaded_registry E"
  unfolding loaded_registry_def ethereumFactory_def EthereumChain_new_def
    ethers_fields_validator ..

lemma getChain_derived_validator:
  "getChain_derived reg (E\<lparr>Mnemonic_fromPhrase := v\<rparr>) c w = getChain_derived reg E c w"
  unfolding getChain_derived_def derivePrivateKey_validator ..

lemma getAddresses_loop_validator:
  "getAddresses_loop reg (E\<lparr>Mnemonic_fromPhrase := v\<rparr>) N cs addresses w =
     getAddresses_loop reg E N cs addresses w"
  by (induction cs arbitrary: addresses w)
    (simp_all add: getChain_derived_validator cong: prod.case_cong sum.case_cong)

lemma getAddresses_validator:
  "getAddresses reg (E\<lparr>Mnemonic_fromPhrase := v\<rparr>) N w = getAddresses reg E N w"
  unfolding getAddresses_def getAddresses_loop_validator getBitcoinAddress_def
    derivePrivateKey_validator ..

lemma connected_instance_validator:
  "connected_instance reg (E\<lparr>Mnemonic_fromPhrase := v\<rparr>) N c w = connected_instance reg E N c w"
  unfolding connected_instance_def getChain_derived_validator ..

lemma getBalance_validator:
  "getBalance (E\<lparr>Mnemonic_fromPhrase := v\<rparr>) N f ci tok = getBalance E N f ci tok"
proof (cases ci)
  case (Evm a)
  show ?thesis
    unfolding Evm getBalance.simps EthereumChain_getBalance_def ethers_fields_validator ..
next
  case (Btc b)
  then show ?thesis by simp
qed

lemma estimateFee_validator:
  "estimateFee (E\<lparr>Mnemonic_fromPhrase := v\<rparr>) N f ci p = estimateFee E N f ci p"
proof (cases ci)
  case (Evm a)
  show ?thesis
    unfolding Evm estimateFee.simps EthereumChain_estimateFee_def ethers_fields_validator ..
next
  case (Btc b)
  then show ?thesis by simp
qed

lemma sendTransaction_validator:
  "sendTransaction (E\<lparr>Mnemonic_fromPhrase := v\<rparr>) N ci p = sendTransaction E N ci p"
proof (cases ci)
  case (Evm a)
  show ?thesis
    unfolding Evm sendTransaction.simps EthereumChain_sendTransaction_def
      ethers_fields_validator ..
next
  case (Btc b)
  then show ?thesis by simp
qed

lemma signMessage_validator:
  "signMessage (E\<lparr>Mnemonic_fromPhrase := v\<rparr>) ci m = signMessage E ci m"
proof (cases ci)
  case (Evm a)
  show ?thesis
    unfolding Evm signMessage.simps EthereumChain_signMessage_def ethers_fields_validator ..
next
  case (Btc b)
  then show ?thesis by simp
qed

lemma wallet_operations_validator:
  "ClawCashWallet_getBalance reg (E\<lparr>Mnemonic_fromPhrase := v\<rparr>) N f c w =
     ClawCashWallet_getBalance reg E N f c w"
  "ClawCashWallet_estimateFee reg (E\<lparr>Mnemonic_fromPhrase := v\<rparr>) N f p w =
     ClawCashWallet_estimateFee reg E N f p w"
  "sendPayment reg (E\<lparr>Mnemonic_fromPhrase := v\<rparr>) N p w = sendPayment reg E N p w"
  "ClawCashWallet_signMessage reg (E\<lparr>Mnemonic_fromPhrase := v\<rparr>) N m c w =
     ClawCashWallet_signMessage reg E N m c w"
  unfolding ClawCashWallet_getBalance_def ClawCashWallet_estimateFee_def sendPayment_def
    ClawCashWallet_signMessage_def connected_instance_validator getBalance_validator
    estimateFee_validator sendTransaction_validator signMessage_validator
  by (rule refl)+

text \<open>
  C3, as stated, fails: the constructor of \<open>KeyManager\<close> accepts a phrase that fails
  validation; the phrase is refused only later, by the library, when a key is derived.
\<close>

theorem KeyManager_accepts_invalid_phrase:
  "validateMnemonic test_ethers ''not a mnemonic'' = False \<and>
   KeyManager_new ''not a mnemonic'' = \<lparr>mnemonic = ''not a mnemonic'', derivedKeys = Map.empty\<rparr> \<and>
   derivePrivateKey test_ethers ethereum (KeyManager_new ''not a mnemonic'') =
     (Inl (Error ''invalid mnemonic''), KeyManager_new ''not a mnemonic'')"
  by (simp add: validateMnemonic_def KeyManager_new_def derivePrivateKey_def test_ethers_def
      test_phrase_def)

text \<open>
  C3, amended.  The constructor of \<open>KeyManager\<close> stores any phrase.  The gate is the
  constructor of \<open>ClawCashWallet\<close>: given a phrase that is not empty it fails with
  \<open>Invalid mnemonic phrase\<close> exactly when \<open>validateMnemonic\<close> is false, and
  \<open>importWallet\<close> fails so for every phrase that fails validation.  No chain operation
  validates again: its result is the same whatever \<open>Mnemonic.fromPhrase\<close> would answer.
\<close>

theorem wallet_validation_gate:
  "KeyManager_new m = \<lparr>mnemonic = m, derivedKeys = Map.empty\<rparr> \<and>
   (m \<noteq> [] \<longrightarrow>
      ClawCashWallet_new E array (cfg\<lparr>config_mnemonic := Some m\<rparr>) =
        (if validateMnemonic E m
         then Inr \<lparr>keyManager = KeyManager_new m, config = cfg\<lparr>config_mnemonic := Some m\<rparr>\<rparr>
         else Inl (Error ''Invalid mnemonic phrase''))) \<and>
   (\<not> validateMnemonic E m \<longrightarrow> importWallet E array m = Inl (Error ''Invalid mnemonic phrase'')) \<and>
   (\<forall>v. derivePrivateKey (E\<lparr>Mnemonic_fromPhrase := v\<rparr>) c km = derivePrivateKey E c km \<and>
        loaded_registry (E\<lparr>Mnemonic_fromPhrase := v\<rparr>) = loaded_registry E \<and>
        getAddresses reg (E\<lparr>Mnemonic_fromPhrase := v\<rparr>) N w = getAddresses reg E N w \<and>
        ClawCashWallet_getBalance reg (E\<lparr>Mnemonic_fromPhrase := v\<rparr>) N f c w =
          ClawCashWallet_getBalance reg E N f c w \<and>
        ClawCashWallet_estimateFee reg (E\<lparr>Mnemonic_fromPhrase := v\<rparr>) N f p w =
          ClawCashWallet_estimateFee reg E N f p w \<and>
        sendPayment reg (E\<lparr>Mnemonic_fromPhrase := v\<rparr>) N p w = sendPayment reg E N p w \<and>
        ClawCashWallet_signMessage reg (E\<lparr>Mnemonic_fromPhrase := v\<rparr>) N msg c w =
          ClawCashWallet_signMessage reg E N msg c w)"
proof (intro conjI impI allI)
  show "KeyManager_new m = \<lparr>mnemonic = m, derivedKeys = Map.empty\<rparr>"
    by (simp add: KeyManager_new_def)
  show "ClawCashWallet_new E array (cfg\<lparr>config_mnemonic := Some m\<rparr>) =
      (if validateMnemonic E m
       then Inr \<lparr>keyManager = KeyManager_new m, config = cfg\<lparr>config_mnemonic := Some m\<rparr>\<rparr>
       else Inl (Error ''Invalid mnemonic phrase''))" if "m \<noteq> []"
    using that by (simp add: ClawCashWallet_new_def)
  show "importWallet E array m = Inl (Error ''Invalid mnemonic phrase'')"
    if "\<not> validateMnemonic E m"
    using that by (simp add: importWallet_def)
qed (simp_all add: derivePrivateKey_validator loaded_registry_validator getAddresses_validator
    wallet_operations_validator)

theorem wallet_validation_gate_witness:
  "''not a mnemonic'' \<noteq> [] \<and>
   \<not> validateMnemonic test_ethers ''not a mnemonic'' \<and>
   KeyManager_new ''not a mnemonic'' = \<lparr>mnemonic = ''not a mnemonic'', derivedKeys = Map.empty\<rparr> \<and>
   ClawCashWallet_new test_ethers (replicate 16 0) (empty_config\<lparr>config_mnemonic := Some ''not a mnemonic''\<rparr>)
     = Inl (Error ''Invalid mnemonic phrase'') \<and>
   importWallet test_ethers (replicate 16 0) ''not a mnemonic'' = Inl (Error ''Invalid mnemonic phrase'') \<and>
   (\<forall>v. getAddresses (loaded_registry test_ethers) (test_ethers\<lparr>Mnemonic_fromPhrase := v\<rparr>) offline test_wallet
          = getAddresses (loaded_registry test_ethers) test_ethers offline test_wallet)"
proof -
  have h1: "''not a mnemonic'' \<noteq> []" by simp
  have h2: "\<not> validateMnemonic test_ethers ''not a mnemonic''"
    by (simp add: validateMnemonic_def test_ethers_def test_phrase_def)
  show ?thesis
    using wallet_validation_gate [of "''not a mnemonic''" test_ethers "replicate 16 0" empty_config
        ethereum "KeyManager_new test_phrase" "loaded_registry test_ethers" offline test_wallet
        test_toFixed8 "test_payment ''ETH''" "''hello''"] h1 h2
    by simp
qed

section \<open>Properties of the seed encoding\<close>

subsection \<open>Bits\<close>

lemma length_bits_of [simp]: "length (bits_of n v) = n"
  by (induction n arbitrary: v) simp_all

lemma nat_of_bits_snoc:
  "nat_of_bits (bs @ [b]) = 2 * nat_of_bits bs + (if b then 1 else 0)"
  by (simp add: nat_of_bits_def)

lemma nat_of_bits_Nil [simp]: "nat_of_bits [] = 0"
  by (simp add: nat_of_bits_def)

lemma nat_of_bits_of: "nat_of_bits (bits_of n v) = v mod 2 ^ n"
proof (induction n arbitrary: v)
  case 0
  then show ?case by simp
next
  case (Suc n)
  have "v mod (2 * 2 ^ n) = 2 * (v div 2 mod 2 ^ n) + v mod 2"
    by (rule mod_mult2_eq)
  moreover have "(if odd v then 1 else 0) = v mod 2"
    by (simp add: odd_iff_mod_2_eq_one)
  ultimately show ?case
    using Suc.IH [of "v div 2"] by (simp add: nat_of_bits_snoc)
qed

lemma bits_of_nat_of: "length bs = n \<Longrightarrow> bits_of n (nat_of_bits bs) = bs"
proof (induction bs arbitrary: n rule: rev_induct)
  case Nil
  then show ?case by simp
next
  case (snoc b bs)
  then obtain m where n: "n = Suc m" and m: "length bs = m"
    by (cases n) simp_all
  have "(2 * nat_of_bits bs + (if b then 1 else 0)) div 2 = nat_of_bits bs"
    by simp
  moreover have "odd (2 * nat_of_bits bs + (if b then 1 else 0)) = b"
    by simp
  ultimately show ?case
    using snoc.IH [OF m] by (simp add: n nat_of_bits_snoc)
qed

lemma nat_of_bits_less: "nat_of_bits bs < 2 ^ length bs"
proof -
  have "nat_of_bits bs = nat_of_bits (bits_of (length bs) (nat_of_bits bs))"
    by (simp add: bits_of_nat_of)
  also have "\<dots> = nat_of_bits bs mod 2 ^ length bs"
    by (rule nat_of_bits_of)
  also have "\<dots> < 2 ^ length bs"
    by simp
  finally show ?thesis .
qed

subsection \<open>Groups\<close>

lemma chunks_Suc: "chunks n (Suc k) xs = chunks n k xs @ [take n (drop (k * n) xs)]"
  by (simp add: chunks_def)

lemma length_chunks [simp]: "length (chunks n k xs) = k"
  by (simp add: chunks_def)

lemma concat_chunks_take: "concat (chunks n k xs) = take (k * n) xs"
proof (induction k)
  case 0
  then show ?case by (simp add: chunks_def)
next
  case (Suc k)
  have "take (k * n) xs @ take n (drop (k * n) xs) = take (k * n + n) xs"
    by (simp add: take_add)
  with Suc show ?case
    by (simp add: chunks_Suc add.commute)
qed

lemma concat_chunks: "length xs = k * n \<Longrightarrow> concat (chunks n k xs) = xs"
  by (simp add: concat_chunks_take)

lemma chunk_of_concat:
  "\<forall>x \<in> set xss. length x = n \<Longrightarrow> i < length xss \<Longrightarrow>
     take n (drop (i * n) (concat xss @ rest)) = xss ! i"
proof (induction xss arbitrary: i)
  case Nil
  then show ?case by simp
next
  case (Cons x xss)
  then have x: "length x = n" and xs: "\<forall>x \<in> set xss. length x = n" by simp_all
  show ?case
  proof (cases i)
    case 0
    with x show ?thesis by simp
  next
    case (Suc j)
    with Cons.prems have j: "j < length xss" by simp
    have "drop (Suc j * n) (concat (x # xss) @ rest) = drop (j * n) (concat xss @ rest)"
      using x by simp
    with Cons.IH [OF xs j] Suc show ?thesis by simp
  qed
qed

lemma chunks_concat:
  assumes "\<forall>x \<in> set xss. length x = n"
  shows "chunks n (length xss) (concat xss @ rest) = xss"
proof -
  have "chunks n (length xss) (concat xss @ rest) = map (\<lambda>i. xss ! i) [0..<length xss]"
    unfolding chunks_def using chunk_of_concat [OF assms] by simp
  then show ?thesis by (simp add: map_nth)
qed

lemma length_chunk:
  "k * n \<le> length xs \<Longrightarrow> c \<in> set (chunks n k xs) \<Longrightarrow> length c = n"
proof -
  assume le: "k * n \<le> length xs" and "c \<in> set (chunks n k xs)"
  then obtain i where i: "i < k" and c: "c = take n (drop (i * n) xs)"
    by (auto simp: chunks_def)
  from i have "Suc i * n \<le> k * n"
    by (intro mult_le_mono1) simp
  with le have "i * n + n \<le> length xs" by simp
  then show ?thesis by (simp add: c)
qed

subsection \<open>Bytes\<close>

lemma length_bits_of_bytes [simp]: "length (bits_of_bytes bs) = 8 * length bs"
  by (induction bs) (simp_all add: bits_of_bytes_def)

lemma bytes_of_bits_of_bytes:
  assumes "list_all (\<lambda>b. b < 256) e"
  shows "bytes_of_bits (bits_of_bytes e) = e"
proof -
  have "chunks 8 (length (map (bits_of 8) e)) (concat (map (bits_of 8) e) @ []) = map (bits_of 8) e"
    by (rule chunks_concat) simp
  then have "chunks 8 (length e) (bits_of_bytes e) = map (bits_of 8) e"
    by (simp add: bits_of_bytes_def)
  then have "bytes_of_bits (bits_of_bytes e) = map (\<lambda>b. b mod 2 ^ 8) e"
    by (simp add: bytes_of_bits_def nat_of_bits_of comp_def)
  also have "\<dots> = e"
    using assms by (simp add: list_all_iff map_idI)
  finally show ?thesis .
qed

lemma bits_of_bytes_of_bits:
  assumes "length bits = 8 * k"
  shows "bits_of_bytes (bytes_of_bits bits) = bits"
proof -
  have k: "length bits div 8 = k" using assms by simp
  have len: "k * 8 \<le> length bits" using assms by simp
  have "map (bits_of 8 \<circ> nat_of_bits) (chunks 8 k bits) = chunks 8 k bits"
    by (rule map_idI) (simp add: bits_of_nat_of length_chunk [OF len])
  then have "bits_of_bytes (bytes_of_bits bits) = concat (chunks 8 k bits)"
    by (simp add: bits_of_bytes_def bytes_of_bits_def k)
  also have "\<dots> = bits"
    by (rule concat_chunks) (simp add: assms)
  finally show ?thesis .
qed

lemma bytes_of_bits_small: "list_all (\<lambda>b. b < 256) (bytes_of_bits bits)"
proof -
  have "nat_of_bits c < 256" if "c \<in> set (chunks 8 (length bits div 8) bits)" for c
  proof -
    have "length bits div 8 * 8 \<le> length bits" by simp
    from length_chunk [OF this that] nat_of_bits_less [of c] show ?thesis by simp
  qed
  then show ?thesis
    by (auto simp: bytes_of_bits_def list_all_iff)
qed

lemma length_bytes_of_bits [simp]: "length (bytes_of_bits bits) = length bits div 8"
  by (simp add: bytes_of_bits_def)

subsection \<open>Words\<close>

lemma index_of_nth: "distinct xs \<Longrightarrow> i < length xs \<Longrightarrow> index_of (xs ! i) xs = i"
proof (induction xs arbitrary: i)
  case Nil
  then show ?case by simp
next
  case (Cons x xs)
  show ?case
  proof (cases i)
    case 0
    then show ?thesis by simp
  next
    case (Suc j)
    with Cons.prems have "xs ! j \<in> set xs" "x \<notin> set xs" by simp_all
    then have "x \<noteq> xs ! j" by blast
    with Suc Cons show ?thesis by simp
  qed
qed

lemma nth_index_of: "x \<in> set xs \<Longrightarrow> index_of x xs < length xs \<and> xs ! index_of x xs = x"
  by (induction xs) auto

lemma split_words_not_Nil [simp]: "split_words s \<noteq> []"
  by (induction s) (simp_all split: list.splits)

lemma join_split_words: "join_words (split_words s) = s"
proof (induction s)
  case Nil
  then show ?case by simp
next
  case (Cons c s)
  obtain w ws where sp: "split_words s = w # ws"
    using split_words_not_Nil [of s] by (cases "split_words s") simp_all
  show ?case
  proof (cases "c = CHR '' ''")
    case True
    with Cons sp show ?thesis by simp
  next
    case False
    with Cons sp show ?thesis by (cases ws) simp_all
  qed
qed

lemma split_words_word: "CHR '' '' \<notin> set w \<Longrightarrow> split_words w = [w]"
  by (induction w) auto

lemma split_words_append:
  "CHR '' '' \<notin> set w \<Longrightarrow> split_words (w @ CHR '' '' # s) = w # split_words s"
  by (induction w) auto

lemma split_join_words:
  "ws \<noteq> [] \<Longrightarrow> \<forall>w \<in> set ws. CHR '' '' \<notin> set w \<Longrightarrow> split_words (join_words ws) = ws"
proof (induction ws rule: join_words.induct)
  case 1
  then show ?case by simp
next
  case (2 w)
  then show ?case by (simp add: split_words_word)
next
  case (3 w v ws)
  then show ?case by (simp add: split_words_append)
qed

subsection \<open>Hex strings\<close>

lemma distinct_hex_chars: "distinct hex_chars" and length_hex_chars: "length hex_chars = 16"
  by (simp_all add: hex_chars_def)

lemma unhex_hex:
  "list_all (\<lambda>b. b < 256) bs \<Longrightarrow>
     unhex (concat (map (\<lambda>b. [hex_chars ! (b div 16), hex_chars ! (b mod 16)]) bs)) = Some bs"
proof (induction bs)
  case Nil
  then show ?case by simp
next
  case (Cons b bs)
  then have b: "b div 16 < 16" "b mod 16 < 16"
    by (simp_all add: less_mult_imp_div_less)
  then have mem: "hex_chars ! (b div 16) \<in> set hex_chars" "hex_chars ! (b mod 16) \<in> set hex_chars"
    by (simp_all add: length_hex_chars)
  have idx: "index_of (hex_chars ! (b div 16)) hex_chars = b div 16"
    "index_of (hex_chars ! (b mod 16)) hex_chars = b mod 16"
    using b by (simp_all add: index_of_nth distinct_hex_chars length_hex_chars)
  show ?case
    using Cons mem idx by simp
qed

lemma getBytes_hexlify:
  "list_all (\<lambda>b. b < 256) bs \<Longrightarrow> getBytes (HexString (hexlify bs)) = Inr bs"
  by (simp add: getBytes_def hexlify_def unhex_hex)

subsection \<open>The two directions\<close>

lemma wordlist_nth:
  assumes "wordlist_ok wl" and "length c = 11"
  shows "wl ! nat_of_bits c \<in> set wl"
    and "index_of (wl ! nat_of_bits c) wl = nat_of_bits c"
    and "CHR '' '' \<notin> set (wl ! nat_of_bits c)"
proof -
  have lt: "nat_of_bits c < length wl"
    using nat_of_bits_less [of c] assms by (simp add: wordlist_ok_def)
  then show mem: "wl ! nat_of_bits c \<in> set wl" by simp
  show "index_of (wl ! nat_of_bits c) wl = nat_of_bits c"
    using assms(1) lt by (simp add: index_of_nth wordlist_ok_def)
  show "CHR '' '' \<notin> set (wl ! nat_of_bits c)"
    using assms(1) mem by (simp add: wordlist_ok_def list_all_iff)
qed

lemma bip39_decode_encode_m:
  assumes wl: "wordlist_ok wl" and H: "hash_ok H"
    and len: "length e = 4 * m" and m: "m \<in> {4, 5, 6, 7, 8}"
    and small: "list_all (\<lambda>b. b < 256) e"
  shows "bip39_decode H wl (bip39_encode H wl e) = Inr e"
proof -
  define cs where "cs = take (length e div 4) (bits_of_bytes (H e))"
  define bits where "bits = bits_of_bytes e @ cs"
  define cks where "cks = chunks 11 (3 * m) bits"
  define ws where "ws = map (\<lambda>c. wl ! nat_of_bits c) cks"
  have m8: "m \<le> 8" and m4: "4 \<le> m" using m by auto
  have lcs: "length cs = m"
    using H len m8 by (simp add: cs_def hash_ok_def)
  have lbits: "length bits = 3 * m * 11"
    by (simp add: bits_def lcs len)
  have k: "length bits div 11 = 3 * m"
    by (simp add: lbits)
  have enc: "bip39_encode H wl e = join_words ws"
    by (simp add: bip39_encode_def Let_def ws_def cks_def k
        bits_def [symmetric, unfolded cs_def])
  have lck: "length c = 11" if "c \<in> set cks" for c
    using that unfolding cks_def by (rule length_chunk [rotated]) (simp add: lbits)
  have lws: "length ws = 3 * m"
    by (simp add: ws_def cks_def)
  have ws_ne: "ws \<noteq> []"
    using lws m4 by auto
  have ws_sp: "\<forall>w \<in> set ws. CHR '' '' \<notin> set w"
    using wordlist_nth(3) [OF wl lck] by (auto simp: ws_def)
  have sp: "split_words (join_words ws) = ws"
    by (rule split_join_words [OF ws_ne ws_sp])
  have n_ok: "length ws \<in> {12, 15, 18, 21, 24}"
    using lws m by auto
  have mem: "list_all (\<lambda>w. w \<in> set wl) ws"
    using wordlist_nth(1) [OF wl lck] by (auto simp: ws_def list_all_iff)
  have "map (\<lambda>w. bits_of 11 (index_of w wl)) ws = map (\<lambda>c. c) cks"
    unfolding ws_def map_map comp_def
    by (rule map_cong [OF refl]) (simp add: wordlist_nth(2) [OF wl lck] bits_of_nat_of lck)
  then have dbits: "concat (map (\<lambda>w. bits_of 11 (index_of w wl)) ws) = bits"
    using concat_chunks [of bits "3 * m" 11] by (simp add: cks_def lbits)
  have d3: "length ws div 3 = m"
    by (simp add: lws)
  have ent: "32 * m = length (bits_of_bytes e)"
    by (simp add: len)
  have tk: "take (32 * m) bits = bits_of_bytes e" and dr: "drop (32 * m) bits = cs"
    unfolding ent by (simp_all add: bits_def)
  have rt: "bytes_of_bits (bits_of_bytes e) = e"
    by (rule bytes_of_bits_of_bytes [OF small])
  have cs': "cs = take m (bits_of_bytes (H e))"
    by (simp add: cs_def len)
  show ?thesis
    unfolding enc bip39_decode_def Let_def sp dbits d3 tk dr rt
    using n_ok mem cs' by simp
qed

lemma bip39_decode_encode:
  assumes "wordlist_ok wl" and "hash_ok H"
    and "length e \<in> {16, 20, 24, 28, 32}" and "list_all (\<lambda>b. b < 256) e"
  shows "bip39_decode H wl (bip39_encode H wl e) = Inr e"
proof -
  from assms(3) obtain m where "length e = 4 * m" "m \<in> {4, 5, 6, 7, 8}"
    by (elim insertE emptyE) (auto intro: that [of 4] that [of 5] that [of 6] that [of 7] that [of 8])
  then show ?thesis
    by (rule bip39_decode_encode_m [OF assms(1,2) _ _ assms(4)])
qed

lemma bip39_encode_decode:
  assumes wl: "wordlist_ok wl" and H: "hash_ok H"
    and dec: "bip39_decode H wl p = Inr e"
  shows "bip39_encode H wl e = p"
    and "length e \<in> {16, 20, 24, 28, 32}"
    and "list_all (\<lambda>b. b < 256) e"
proof -
  define ws where "ws = split_words p"
  define bits where "bits = concat (map (\<lambda>w. bits_of 11 (index_of w wl)) ws)"
  define m where "m = length ws div 3"
  from dec have n_ok: "length ws \<in> {12, 15, 18, 21, 24}"
    and mem: "list_all (\<lambda>w. w \<in> set wl) ws"
    and e: "e = bytes_of_bits (take (32 * m) bits)"
    and ck: "drop (32 * m) bits = take m (bits_of_bytes (H e))"
    unfolding bip39_decode_def Let_def ws_def [symmetric] bits_def [symmetric] m_def [symmetric]
    by (auto split: if_splits)
  from n_ok have lws: "length ws = 3 * m" and m: "m \<in> {4, 5, 6, 7, 8}"
    unfolding m_def by auto
  have lbits: "length bits = 3 * m * 11"
    unfolding bits_def length_concat by (simp add: comp_def sum_list_triv lws)
  have ltake: "length (take (32 * m) bits) = 8 * (4 * m)"
    by (simp add: lbits)
  show small: "list_all (\<lambda>b. b < 256) e"
    unfolding e by (rule bytes_of_bits_small)
  have le: "length e = 4 * m"
    unfolding e by (simp add: lbits)
  then show "length e \<in> {16, 20, 24, 28, 32}"
    using m by auto
  have eb: "bits_of_bytes e = take (32 * m) bits"
    unfolding e by (rule bits_of_bytes_of_bits [OF ltake])
  have all: "bits_of_bytes e @ take (length e div 4) (bits_of_bytes (H e)) = bits"
    by (simp add: eb le ck [symmetric])
  have k: "length bits div 11 = length (map (\<lambda>w. bits_of 11 (index_of w wl)) ws)"
    by (simp add: lbits lws)
  have "chunks 11 (length (map (\<lambda>w. bits_of 11 (index_of w wl)) ws))
      (concat (map (\<lambda>w. bits_of 11 (index_of w wl)) ws) @ []) =
      map (\<lambda>w. bits_of 11 (index_of w wl)) ws"
    by (rule chunks_concat) simp
  then have cks: "chunks 11 (length bits div 11) bits = map (\<lambda>w. bits_of 11 (index_of w wl)) ws"
    unfolding k by (simp add: bits_def)
  have word: "wl ! nat_of_bits (bits_of 11 (index_of w wl)) = w" if "w \<in> set ws" for w
  proof -
    from that mem have "w \<in> set wl" by (simp add: list_all_iff)
    from nth_index_of [OF this] wl show ?thesis
      by (simp add: nat_of_bits_of wordlist_ok_def)
  qed
  have "map (\<lambda>c. wl ! nat_of_bits c) (map (\<lambda>w. bits_of 11 (index_of w wl)) ws) = ws"
    unfolding map_map comp_def by (rule map_idI) (rule word)
  then have "bip39_encode H wl e = join_words ws"
    by (simp add: bip39_encode_def Let_def all cks)
  then show "bip39_encode H wl e = p"
    by (simp add: ws_def join_split_words)
qed

subsection \<open>The parameters of evaluation\<close>

lemma test_hash_ok: "hash_ok test_hash"
  by (simp add: hash_ok_def test_hash_def)

lemma test_wordlist_ok: "wordlist_ok test_wordlist"
proof -
  let ?letter = "\<lambda>b. if b then CHR ''b'' else CHR ''a''"
  let ?word = "\<lambda>i. map ?letter (bits_of 11 i)"
  have inj_letter: "inj ?letter"
    by (auto simp: inj_on_def)
  have "inj_on ?word {0..<2048}"
  proof (rule inj_onI)
    fix i j :: nat
    assume i: "i \<in> {0..<2048}" and j: "j \<in> {0..<2048}" and eq: "?word i = ?word j"
    from eq have "bits_of 11 i = bits_of 11 j"
      using inj_letter by (simp add: inj_map_eq_map)
    then have "nat_of_bits (bits_of 11 i) = nat_of_bits (bits_of 11 j)" by simp
    then show "i = j"
      using i j by (simp add: nat_of_bits_of)
  qed
  then have "distinct test_wordlist"
    by (simp add: test_wordlist_def distinct_map)
  moreover have "length test_wordlist = 2048"
    by (simp add: test_wordlist_def)
  moreover have "list_all (\<lambda>w. CHR '' '' \<notin> set w) test_wordlist"
    by (auto simp: test_wordlist_def list_all_iff)
  ultimately show ?thesis
    by (simp add: wordlist_ok_def)
qed

subsection \<open>The functions of \<open>core/mnemonic.ts\<close> on the modelled library\<close>

lemma bip39_fields [simp]:
  "Mnemonic_fromPhrase (bip39_ethers H wl E) = bip39_fromPhrase H wl"
  "Mnemonic_fromEntropy (bip39_ethers H wl E) = bip39_fromEntropy H wl"
  by (simp_all add: bip39_ethers_def)

lemma validateMnemonic_bip39:
  "validateMnemonic (bip39_ethers H wl E) p = (\<exists>e. bip39_decode H wl p = Inr e)"
  by (cases "bip39_decode H wl p") (simp_all add: validateMnemonic_def bip39_fromPhrase_def)

lemma mnemonicToEntropy_bip39:
  "bip39_decode H wl p = Inr e \<Longrightarrow> mnemonicToEntropy (bip39_ethers H wl E) p = Inr (hexlify e)"
  by (simp add: mnemonicToEntropy_def bip39_fromPhrase_def)

lemma entropyToMnemonic_bip39:
  assumes "length e \<in> {16, 20, 24, 28, 32}" and "list_all (\<lambda>b. b < 256) e"
  shows "entropyToMnemonic (bip39_ethers H wl E) (hexlify e) = Inr (bip39_encode H wl e)"
  using assms
  by (simp add: entropyToMnemonic_def bip39_fromEntropy_def getBytes_hexlify)

lemma generateMnemonic_bip39:
  assumes "length e \<in> {16, 20, 24, 28, 32}" and "list_all (\<lambda>b. b < 256) e"
  shows "generateMnemonic (bip39_ethers H wl E) e = Inr (bip39_encode H wl e)"
  using assms
  by (simp add: generateMnemonic_def bip39_fromEntropy_def getBytes_def)

lemma bip39_decode_indices:
  assumes wl: "wordlist_ok wl"
    and n: "length is \<in> {12, 15, 18, 21, 24}"
    and lt: "\<forall>i \<in> set is. i < 2048"
  shows "bip39_decode H wl (join_words (map (\<lambda>i. wl ! i) is)) =
     (let bits = concat (map (bits_of 11) is);
          ent = 32 * (length is div 3);
          e = bytes_of_bits (take ent bits)
      in if drop ent bits = take (length is div 3) (bits_of_bytes (H e)) then Inr e
         else Inl (Error ''invalid mnemonic checksum''))"
proof -
  define ws where "ws = map (\<lambda>i. wl ! i) is"
  have len: "length wl = 2048" and dist: "distinct wl" 
    and nosp: "\<forall>w \<in> set wl. CHR '' '' \<notin> set w"
    using wl by (simp_all add: wordlist_ok_def list_all_iff)
  have mem: "\<forall>w \<in> set ws. w \<in> set wl"
    using lt len by (auto simp: ws_def)
  have ne: "ws \<noteq> []"
    using n by (auto simp: ws_def)
  have sp: "split_words (join_words ws) = ws"
    by (rule split_join_words [OF ne]) (use mem nosp in blast)
  have idx: "map (\<lambda>w. bits_of 11 (index_of w wl)) ws = map (bits_of 11) is"
    unfolding ws_def map_map comp_def
    by (rule map_cong [OF refl]) (use lt len dist in \<open>simp add: index_of_nth\<close>)
  have lws: "length ws = length is"
    by (simp add: ws_def)
  show ?thesis
    unfolding ws_def [symmetric] bip39_decode_def Let_def sp idx lws
    using n mem by (simp add: list_all_iff)
qed

lemma test_wordlist_letters: "w \<in> set test_wordlist \<Longrightarrow> set w \<subseteq> {CHR ''a'', CHR ''b''}"
  by (auto simp: test_wordlist_def)

lemma not_a_mnemonic:
  "\<not> list_all (\<lambda>w. w \<in> set test_wordlist) (split_words ''not a mnemonic'')"
proof -
  have "''not'' \<notin> set test_wordlist"
    using test_wordlist_letters [of "''not''"] by auto
  then show ?thesis by simp
qed

lemma bits_of_11:
  "bits_of 11 0 = replicate 11 False"
  "bits_of 11 1 = replicate 10 False @ [True]"
  by code_simp+

lemma test_bad_checksum_decode:
  "bip39_decode test_hash test_wordlist test_bad_checksum =
     Inl (Error ''invalid mnemonic checksum'')"
proof -
  have bits: "concat (map (bits_of 11) [0, 0, 0, 0, 0, 0, 0, 0, 0, 0, 0, 1]) =
      replicate 131 False @ [True]"
    unfolding list.map bits_of_11 by code_simp
  have n: "length [0::nat, 0, 0, 0, 0, 0, 0, 0, 0, 0, 0, 1] div 3 = 4"
    by simp
  have dr: "drop (32 * 4) (replicate 131 False @ [True]) = [False, False, False, True]"
    by code_simp
  have ck: "take 4 (bits_of_bytes (test_hash x)) = [False, False, False, False]" for x
    unfolding test_hash_def by code_simp
  have "bip39_decode test_hash test_wordlist test_bad_checksum =
     (let bits = concat (map (bits_of 11) [0, 0, 0, 0, 0, 0, 0, 0, 0, 0, 0, 1]);
          ent = 32 * (length [0::nat, 0, 0, 0, 0, 0, 0, 0, 0, 0, 0, 1] div 3);
          e = bytes_of_bits (take ent bits)
      in if drop ent bits =
            take (length [0::nat, 0, 0, 0, 0, 0, 0, 0, 0, 0, 0, 1] div 3)
              (bits_of_bytes (test_hash e))
         then Inr e
         else Inl (Error ''invalid mnemonic checksum''))"
    unfolding test_bad_checksum_def
    by (rule bip39_decode_indices [OF test_wordlist_ok]) simp_all
  also have "\<dots> = Inl (Error ''invalid mnemonic checksum'')"
    unfolding Let_def bits n dr ck by simp
  finally show ?thesis .
qed

text \<open>
  C4, on the modelled library.  For a word list of 2048 different words and a 32-byte
  hash: for every phrase \<open>p\<close> that \<open>validateMnemonic\<close> accepts,
  \<open>mnemonicToEntropy(p)\<close> returns an entropy \<open>h\<close> and \<open>entropyToMnemonic(h)\<close> returns
  \<open>p\<close>; and for every entropy \<open>e\<close> of 16 bytes (and of 20, 24, 28 and 32),
  \<open>entropyToMnemonic\<close> returns a phrase \<open>q\<close> and \<open>mnemonicToEntropy(q)\<close> returns \<open>e\<close>
  (as its hex string).
\<close>

theorem mnemonic_round_trip:
  assumes "wordlist_ok wl" and "hash_ok H"
  shows "(validateMnemonic (bip39_ethers H wl E) p \<longrightarrow>
            (\<exists>h. mnemonicToEntropy (bip39_ethers H wl E) p = Inr h \<and>
                 entropyToMnemonic (bip39_ethers H wl E) h = Inr p)) \<and>
         (length e \<in> {16, 20, 24, 28, 32} \<and> list_all (\<lambda>b. b < 256) e \<longrightarrow>
            (\<exists>q. entropyToMnemonic (bip39_ethers H wl E) (hexlify e) = Inr q \<and>
                 mnemonicToEntropy (bip39_ethers H wl E) q = Inr (hexlify e)))"
proof (intro conjI impI)
  assume "validateMnemonic (bip39_ethers H wl E) p"
  then obtain e' where d: "bip39_decode H wl p = Inr e'"
    by (auto simp: validateMnemonic_bip39)
  note rt = bip39_encode_decode [OF assms d]
  have "entropyToMnemonic (bip39_ethers H wl E) (hexlify e') = Inr p"
    using entropyToMnemonic_bip39 [OF rt(2,3), of H wl E] rt(1) by simp
  with mnemonicToEntropy_bip39 [OF d, of E]
  show "\<exists>h. mnemonicToEntropy (bip39_ethers H wl E) p = Inr h \<and>
      entropyToMnemonic (bip39_ethers H wl E) h = Inr p"
    by blast
next
  assume "length e \<in> {16, 20, 24, 28, 32} \<and> list_all (\<lambda>b. b < 256) e"
  then have e: "length e \<in> {16, 20, 24, 28, 32}" "list_all (\<lambda>b. b < 256) e"
    by blast+
  from mnemonicToEntropy_bip39 [OF bip39_decode_encode [OF assms e], of E]
    entropyToMnemonic_bip39 [OF e, of H wl E]
  show "\<exists>q. entropyToMnemonic (bip39_ethers H wl E) (hexlify e) = Inr q \<and>
      mnemonicToEntropy (bip39_ethers H wl E) q = Inr (hexlify e)"
    by blast
qed

theorem mnemonic_round_trip_witness:
  "wordlist_ok test_wordlist \<and> hash_ok test_hash \<and>
   validateMnemonic (bip39_ethers test_hash test_wordlist test_ethers)
     (bip39_encode test_hash test_wordlist (replicate 16 0)) \<and>
   (\<exists>h. mnemonicToEntropy (bip39_ethers test_hash test_wordlist test_ethers)
           (bip39_encode test_hash test_wordlist (replicate 16 0)) = Inr h \<and>
        entropyToMnemonic (bip39_ethers test_hash test_wordlist test_ethers) h =
          Inr (bip39_encode test_hash test_wordlist (replicate 16 0))) \<and>
   length (replicate 16 (0::nat)) \<in> {16, 20, 24, 28, 32} \<and>
   list_all (\<lambda>b. b < 256) (replicate 16 (0::nat)) \<and>
   (\<exists>q. entropyToMnemonic (bip39_ethers test_hash test_wordlist test_ethers)
           (hexlify (replicate 16 0)) = Inr q \<and>
        mnemonicToEntropy (bip39_ethers test_hash test_wordlist test_ethers) q =
          Inr (hexlify (replicate 16 0)))"
proof -
  have e: "length (replicate 16 (0::nat)) \<in> {16, 20, 24, 28, 32}"
    "list_all (\<lambda>b. b < 256) (replicate 16 (0::nat))"
    by (simp_all add: list_all_iff)
  have v: "validateMnemonic (bip39_ethers test_hash test_wordlist test_ethers)
      (bip39_encode test_hash test_wordlist (replicate 16 0))"
    using bip39_decode_encode [OF test_wordlist_ok test_hash_ok e]
    by (simp add: validateMnemonic_bip39)
  show ?thesis
    using mnemonic_round_trip [OF test_wordlist_ok test_hash_ok, of test_ethers
        "bip39_encode test_hash test_wordlist (replicate 16 0)" "replicate 16 0"]
      test_wordlist_ok test_hash_ok e v
    by blast
qed

text \<open>
  C7.  On any library, \<open>validateMnemonic\<close> returns a boolean for every string: true
  when \<open>Mnemonic.fromPhrase\<close> returns, false when it throws, whatever it throws.  On the
  modelled library it is true exactly for the phrases that decode; it is false for a
  phrase with a word that is not in the list and for a phrase whose checksum is not the
  recomputed one; and for every 16 random bytes \<open>generateMnemonic\<close> returns a phrase on
  which it is true.
\<close>

theorem validateMnemonic_total:
  assumes "wordlist_ok wl" and "hash_ok H"
  shows "validateMnemonic E0 m = (\<exists>mn. Mnemonic_fromPhrase E0 m = Inr mn) \<and>
         validateMnemonic (bip39_ethers H wl E) m = (\<exists>e. bip39_decode H wl m = Inr e) \<and>
         (\<not> list_all (\<lambda>w. w \<in> set wl) (split_words m) \<longrightarrow>
            validateMnemonic (bip39_ethers H wl E) m = False) \<and>
         (bip39_decode H wl m' = Inl (Error ''invalid mnemonic checksum'') \<longrightarrow>
            validateMnemonic (bip39_ethers H wl E) m' = False) \<and>
         (length array = 16 \<and> list_all (\<lambda>b. b < 256) array \<longrightarrow>
            (\<exists>p. generateMnemonic (bip39_ethers H wl E) array = Inr p \<and>
                 validateMnemonic (bip39_ethers H wl E) p = True))"
proof (intro conjI impI)
  show "validateMnemonic E0 m = (\<exists>mn. Mnemonic_fromPhrase E0 m = Inr mn)"
    by (cases "Mnemonic_fromPhrase E0 m") (simp_all add: validateMnemonic_def)
  show "validateMnemonic (bip39_ethers H wl E) m = (\<exists>e. bip39_decode H wl m = Inr e)"
    by (rule validateMnemonic_bip39)
  show "validateMnemonic (bip39_ethers H wl E) m = False"
    if "\<not> list_all (\<lambda>w. w \<in> set wl) (split_words m)"
    using that by (simp add: validateMnemonic_bip39 bip39_decode_def Let_def)
  show "validateMnemonic (bip39_ethers H wl E) m' = False"
    if "bip39_decode H wl m' = Inl (Error ''invalid mnemonic checksum'')"
    using that by (simp add: validateMnemonic_bip39)
  show "\<exists>p. generateMnemonic (bip39_ethers H wl E) array = Inr p \<and>
      validateMnemonic (bip39_ethers H wl E) p = True"
    if "length array = 16 \<and> list_all (\<lambda>b. b < 256) array"
  proof -
    from that have a: "length array \<in> {16, 20, 24, 28, 32}" "list_all (\<lambda>b. b < 256) array"
      by simp_all
    from generateMnemonic_bip39 [OF a, of H wl E] bip39_decode_encode [OF assms a]
    show ?thesis by (simp add: validateMnemonic_bip39)
  qed
qed

theorem validateMnemonic_total_witness:
  "wordlist_ok test_wordlist \<and> hash_ok test_hash \<and>
   validateMnemonic test_ethers ''not a mnemonic'' =
     (\<exists>mn. Mnemonic_fromPhrase test_ethers ''not a mnemonic'' = Inr mn) \<and>
   \<not> list_all (\<lambda>w. w \<in> set test_wordlist) (split_words ''not a mnemonic'') \<and>
   validateMnemonic (bip39_ethers test_hash test_wordlist test_ethers) ''not a mnemonic'' = False \<and>
   bip39_decode test_hash test_wordlist test_bad_checksum =
     Inl (Error ''invalid mnemonic checksum'') \<and>
   validateMnemonic (bip39_ethers test_hash test_wordlist test_ethers) test_bad_checksum = False \<and>
   length (replicate 16 (0::nat)) = 16 \<and>
   list_all (\<lambda>b. b < 256) (replicate 16 (0::nat)) \<and>
   (\<exists>p. generateMnemonic (bip39_ethers test_hash test_wordlist test_ethers) (replicate 16 0) = Inr p \<and>
        validateMnemonic (bip39_ethers test_hash test_wordlist test_ethers) p = True)"
proof -
  have e: "length (replicate 16 (0::nat)) = 16"
    "list_all (\<lambda>b. b < 256) (replicate 16 (0::nat))"
    by (simp_all add: list_all_iff)
  show ?thesis
    using validateMnemonic_total [OF test_wordlist_ok test_hash_ok, of test_ethers
        "''not a mnemonic''" test_ethers test_bad_checksum "replicate 16 0"]
      test_wordlist_ok test_hash_ok not_a_mnemonic test_bad_checksum_decode e
    by blast
qed

end
